theory Spec2Isabelle
  imports Complex_Main "HOL-Library.Word"
begin

section \<open>Palette quantizer (imageService: getDominantColors, rgbToHex)\<close>

subsection \<open>Pixels and number formatting\<close>

text \<open>
  A sampled pixel: the three colour channels read from the canvas image data, each an
  unsigned 8-bit value.  The fields stand for the source's \<open>r\<close>, \<open>g\<close>, \<open>b\<close>.
\<close>

record pixel =
  px_r :: "8 word"
  px_g :: "8 word"
  px_b :: "8 word"

text \<open>
  \<open>Math.round(a / b)\<close> for non-negative integers \<open>a\<close> and a positive integer \<open>b\<close>:
  \<open>Math.round\<close> rounds to the nearest integer, a tie going upwards.
\<close>

definition Math_round_div :: "nat \<Rightarrow> nat \<Rightarrow> nat" where
  "Math_round_div a b = (2 * a + b) div (2 * b)"

definition factor :: nat where
  "factor = 32"

definition digitChar :: "nat \<Rightarrow> char" where
  "digitChar d = ''0123456789abcdef'' ! d"

text \<open>\<open>n.toString(radix)\<close> for a non-negative integer, radix 10 or 16.\<close>

fun toStringRadix :: "nat \<Rightarrow> nat \<Rightarrow> string" where
  "toStringRadix radix n =
     (if radix < 2 \<or> n < radix then [digitChar n]
      else toStringRadix radix (n div radix) @ [digitChar (n mod radix)])"

declare toStringRadix.simps [simp del]

text \<open>The template literal \<open>`${r},${g},${b}`\<close>.\<close>

definition keyOf :: "nat \<Rightarrow> nat \<Rightarrow> nat \<Rightarrow> string" where
  "keyOf rr gg bb = toStringRadix 10 rr @ '','' @ toStringRadix 10 gg @ '','' @ toStringRadix 10 bb"

definition quantChannel :: "8 word \<Rightarrow> nat" where
  "quantChannel v = Math_round_div (unat v) factor * factor"

definition bucketKey :: "pixel \<Rightarrow> string" where
  "bucketKey p = keyOf (quantChannel (px_r p)) (quantChannel (px_g p)) (quantChannel (px_b p))"

subsection \<open>The bucket table\<close>

text \<open>
  \<open>buckets\<close> is a JavaScript object used as a dictionary.  \<open>Object.entries\<close> lists string
  keys in insertion order (only keys that are array indices are moved to the front, and a
  bucket key always contains a comma), so the table is an association list in insertion
  order.  \<open>bump\<close> is the statement \<open>buckets[key] = (buckets[key] || 0) + 1\<close>.
\<close>

fun bump :: "string \<Rightarrow> (string \<times> nat) list \<Rightarrow> (string \<times> nat) list" where
  "bump k [] = [(k, 1)]"
| "bump k ((k', n) # kvs) = (if k = k' then (k', n + 1) # kvs else (k', n) # bump k kvs)"

definition bucketsOf :: "pixel list \<Rightarrow> (string \<times> nat) list" where
  "bucketsOf pixels = foldl (\<lambda>buckets p. bump (bucketKey p) buckets) [] pixels"

text \<open>
  \<open>.sort((a, b) => b[1] - a[1])\<close>: \<open>Array.prototype.sort\<close> is stable, and the comparator
  orders entries by count, larger first.  A stable sort by the negated count gives the
  same list.
\<close>

definition rankedOf :: "pixel list \<Rightarrow> (string \<times> nat) list" where
  "rankedOf pixels = sort_key (\<lambda>e. - int (snd e)) (bucketsOf pixels)"

text \<open>
  \<open>xs.slice(0, e)\<close> for an integer \<open>e\<close>: a negative end counts from the end of the array.
\<close>

definition slice0 :: "'a list \<Rightarrow> int \<Rightarrow> 'a list" where
  "slice0 xs e =
     (let len = int (length xs);
          final = (if e < 0 then max (len + e) 0 else min e len)
      in take (nat final) xs)"

subsection \<open>Decoding a key and hex encoding\<close>

text \<open>\<open>s.split(',')\<close>.\<close>

fun split_comma :: "string \<Rightarrow> string list" where
  "split_comma [] = [[]]"
| "split_comma (ch # cs) =
     (if ch = CHR '','' then [] # split_comma cs
      else (case split_comma cs of [] \<Rightarrow> [[ch]] | w # ws \<Rightarrow> (ch # w) # ws))"

definition digitVal :: "char \<Rightarrow> nat option" where
  "digitVal ch =
     (let code = (of_char ch :: nat) in if 48 \<le> code \<and> code \<le> 57 then Some (code - 48) else None)"

text \<open>
  \<open>Number(s)\<close> on a string of decimal digits (the empty string reads as 0).  Any other
  string is outside this model (\<open>None\<close>); bucket keys never produce one.
\<close>

fun NumberAcc :: "nat \<Rightarrow> string \<Rightarrow> nat option" where
  "NumberAcc acc [] = Some acc"
| "NumberAcc acc (ch # cs) =
     (case digitVal ch of None \<Rightarrow> None | Some d \<Rightarrow> NumberAcc (10 * acc + d) cs)"

definition Number :: "string \<Rightarrow> nat option" where
  "Number s = NumberAcc 0 s"

definition rgbToHex :: "nat \<Rightarrow> nat \<Rightarrow> nat \<Rightarrow> string" where
  "rgbToHex rr gg bb =
     ''#'' @ concat (map (\<lambda>x. let hex = toStringRadix 16 x
                               in if length hex = 1 then ''0'' @ hex else hex) [rr, gg, bb])"

text \<open>
  The callback of the final \<open>map\<close>: \<open>const [r, g, b] = key.split(',').map(Number)\<close>, then
  \<open>rgbToHex(r, g, b)\<close>.  A key with fewer than three segments would leave a channel
  undefined and \<open>toString\<close> would throw; that is \<open>None\<close>.
\<close>

definition hexOfEntry :: "string \<times> nat \<Rightarrow> string option" where
  "hexOfEntry e =
     (case map Number (split_comma (fst e)) of
        Some rr # Some gg # Some bb # _ \<Rightarrow> Some (rgbToHex rr gg bb)
      | _ \<Rightarrow> None)"

fun mapM :: "('a \<Rightarrow> 'b option) \<Rightarrow> 'a list \<Rightarrow> 'b list option" where
  "mapM f [] = Some []"
| "mapM f (x # xs) =
     (case f x of None \<Rightarrow> None
      | Some y \<Rightarrow> (case mapM f xs of None \<Rightarrow> None | Some ys \<Rightarrow> Some (y # ys)))"

definition getDominantColors :: "pixel list \<Rightarrow> int \<Rightarrow> string list option" where
  "getDominantColors pixels count = mapM hexOfEntry (slice0 (rankedOf pixels) count)"


subsection \<open>Vocabulary for the quantizer's properties\<close>

text \<open>
  \<open>firstSeen ks\<close> lists the distinct elements of \<open>ks\<close> in order of first occurrence,
  \<open>firstIndex ks k\<close> is the position of the first occurrence of \<open>k\<close> in \<open>ks\<close>, and
  \<open>tally ks\<close> pairs every distinct element with its number of occurrences.
\<close>

definition firstSeen :: "'a list \<Rightarrow> 'a list" where
  "firstSeen ks = rev (remdups (rev ks))"

definition firstIndex :: "'a list \<Rightarrow> 'a \<Rightarrow> nat" where
  "firstIndex ks k = length (takeWhile (\<lambda>x. x \<noteq> k) ks)"

definition tally :: "string list \<Rightarrow> (string \<times> nat) list" where
  "tally ks = map (\<lambda>k. (k, count_list ks k)) (firstSeen ks)"

text \<open>\<open>before xs a b\<close>: \<open>a\<close> stands at an earlier position of \<open>xs\<close> than \<open>b\<close>.\<close>

definition before :: "'a list \<Rightarrow> 'a \<Rightarrow> 'a \<Rightarrow> bool" where
  "before xs a b = (\<exists>i j. i < j \<and> j < length xs \<and> xs ! i = a \<and> xs ! j = b)"

text \<open>The hex colour of the bucket a pixel falls into.\<close>

definition pixelHex :: "pixel \<Rightarrow> string" where
  "pixelHex p = rgbToHex (quantChannel (px_r p)) (quantChannel (px_g p)) (quantChannel (px_b p))"

definition isHexDigit :: "char \<Rightarrow> bool" where
  "isHexDigit ch = (ch \<in> set ''0123456789abcdefABCDEF'')"

text \<open>A colour string of the form \<open>#rrggbb\<close>.\<close>

definition isHexColor :: "string \<Rightarrow> bool" where
  "isHexColor s =
     (case s of [] \<Rightarrow> False
      | ch # ds \<Rightarrow> ch = CHR ''#'' \<and> length ds = 6 \<and> list_all isHexDigit ds)"

section \<open>Colour transformations (colorService)\<close>

subsection \<open>JavaScript numbers and the colour library\<close>

text \<open>
  A JavaScript number is modelled as a real, or \<open>NaN\<close>: the colour library reports an
  undefined hue or chroma (a grey, black or white) as \<open>NaN\<close>, and the code reads such a
  field through \<open>x || 0\<close>.  Arithmetic is that of the reals; rounding of doubles and the
  infinities are not modelled.
\<close>

datatype jsnum = NaN | Num real

text \<open>\<open>x || 0\<close>: \<open>NaN\<close> and 0 are falsy.\<close>

definition orz :: "jsnum \<Rightarrow> real" where
  "orz x = (case x of NaN \<Rightarrow> 0 | Num v \<Rightarrow> v)"

definition js_add :: "jsnum \<Rightarrow> real \<Rightarrow> jsnum" where
  "js_add x y = (case x of NaN \<Rightarrow> NaN | Num v \<Rightarrow> Num (v + y))"

definition js_mul :: "jsnum \<Rightarrow> real \<Rightarrow> jsnum" where
  "js_mul x y = (case x of NaN \<Rightarrow> NaN | Num v \<Rightarrow> Num (v * y))"

text \<open>\<open>Math.max(a, x)\<close> and \<open>Math.min(a, x)\<close> with a constant first argument.\<close>

definition Math_max :: "real \<Rightarrow> jsnum \<Rightarrow> jsnum" where
  "Math_max a x = (case x of NaN \<Rightarrow> NaN | Num v \<Rightarrow> Num (max a v))"

definition Math_min :: "real \<Rightarrow> jsnum \<Rightarrow> jsnum" where
  "Math_min a x = (case x of NaN \<Rightarrow> NaN | Num v \<Rightarrow> Num (min a v))"

text \<open>
  \<open>x % m\<close> for a non-zero \<open>m\<close>: the remainder of the division truncated towards zero,
  so the result has the sign of \<open>x\<close>.
\<close>

definition js_rem :: "real \<Rightarrow> real \<Rightarrow> real" where
  "js_rem x m = x - m * of_int (if 0 \<le> x / m then \<lfloor>x / m\<rfloor> else \<lceil>x / m\<rceil>)"

definition showInt :: "int \<Rightarrow> string" where
  "showInt i = (if i < 0 then ''-'' @ toStringRadix 10 (nat (- i)) else toStringRadix 10 (nat i))"

text \<open>The template text of \<open>Math.round(x)\<close>.\<close>

definition roundStr :: "jsnum \<Rightarrow> string" where
  "roundStr x = (case x of NaN \<Rightarrow> ''NaN'' | Num v \<Rightarrow> showInt \<lfloor>v + 1 / 2\<rfloor>)"

text \<open>
  \<open>x.toFixed(2)\<close> for a number below \<open>10^21\<close>: the integer number of hundredths
  nearest to \<open>x\<close> (a tie going to the larger one), written with two decimals.
\<close>

definition hundredths :: "nat \<Rightarrow> string" where
  "hundredths n =
     (let frac = toStringRadix 10 (n mod 100)
      in toStringRadix 10 (n div 100) @ ''.'' @ (if length frac = 1 then ''0'' @ frac else frac))"

definition toFixed2 :: "real \<Rightarrow> string" where
  "toFixed2 x =
     (let n = nat \<lfloor>\<bar>x\<bar> * 100 + 1 / 2\<rfloor>
      in if x < 0 then ''-'' @ hundredths n else hundredths n)"

text \<open>
  An LCH colour object of the library (fields \<open>l\<close>, \<open>c\<close>, \<open>h\<close>) and an RGB colour object
  (fields \<open>r\<close>, \<open>g\<close>, \<open>b\<close>) of a colour read from a string.
\<close>

record lch =
  lch_l :: jsnum
  lch_c :: jsnum
  lch_h :: jsnum

record rgbcolor =
  rgb_r :: real
  rgb_g :: real
  rgb_b :: real

text \<open>
  The functions of the colour library d3-color that the service calls.  The library is
  not part of the repository, so its functions are parameters of the model:
  \<^item> \<open>d3_color\<close>: \<open>d3.color(s)\<close>, \<open>None\<close> for the \<open>null\<close> returned on an unparseable string;
  \<^item> \<open>d3_formatHex\<close>, \<open>d3_formatRgb\<close>, \<open>d3_formatHsl\<close>: the formatting methods of a colour;
  \<^item> \<open>d3_lchOf\<close>: \<open>lch(color)\<close> on a colour object;
  \<^item> \<open>d3_lch\<close>: \<open>lch(hex)\<close> on a string (always an object, never \<open>null\<close>);
  \<^item> \<open>d3_lchHex\<close>: \<open>lch(l, c, h).formatHex()\<close>;
  \<^item> \<open>d3_rgb\<close>: \<open>d3.rgb(s)\<close> on the string of a colour.
\<close>

record 'c d3 =
  d3_color :: "string \<Rightarrow> 'c option"
  d3_formatHex :: "'c \<Rightarrow> string"
  d3_formatRgb :: "'c \<Rightarrow> string"
  d3_formatHsl :: "'c \<Rightarrow> string"
  d3_lchOf :: "'c \<Rightarrow> lch"
  d3_lch :: "string \<Rightarrow> lch"
  d3_lchHex :: "lch \<Rightarrow> string"
  d3_rgb :: "string \<Rightarrow> rgbcolor"

subsection \<open>The service functions\<close>

definition normalizeHex :: "'c d3 \<Rightarrow> string \<Rightarrow> string" where
  "normalizeHex lib hex =
     (case d3_color lib hex of Some color \<Rightarrow> d3_formatHex lib color | None \<Rightarrow> ''#000000'')"

record ColorFormats =
  cf_hex :: string
  cf_rgb :: string
  cf_hsl :: string
  cf_lch :: string

definition getColorFormats :: "'c d3 \<Rightarrow> string \<Rightarrow> ColorFormats" where
  "getColorFormats lib colorStr =
     (case d3_color lib colorStr of
        None \<Rightarrow> \<lparr>cf_hex = ''#000000'', cf_rgb = ''rgb(0,0,0)'', cf_hsl = ''hsl(0,0%,0%)'',
                 cf_lch = ''lch(0 0 0)''\<rparr>
      | Some color \<Rightarrow>
          (let lchVal = d3_lchOf lib color;
               lchStr = ''lch('' @ roundStr (lch_l lchVal) @ '' '' @ roundStr (lch_c lchVal)
                          @ '' '' @ roundStr (Num (orz (lch_h lchVal))) @ '')''
           in \<lparr>cf_hex = d3_formatHex lib color, cf_rgb = d3_formatRgb lib color,
                cf_hsl = d3_formatHsl lib color, cf_lch = lchStr\<rparr>))"

text \<open>
  \<open>getShades\<close> and \<open>getTones\<close>.  The guard \<open>if (!color)\<close> never fires, since \<open>d3.lch\<close>
  returns an object for every argument; the three fields are read through \<open>|| 0\<close>.
\<close>

definition getShades :: "'c d3 \<Rightarrow> string \<Rightarrow> string list" where
  "getShades lib hex =
     (let color = d3_lch lib hex;
          l = orz (lch_l color); c = orz (lch_c color); h = orz (lch_h color)
      in [d3_lchHex lib \<lparr>lch_l = Num (l * 0.8), lch_c = Num c, lch_h = Num h\<rparr>,
          d3_lchHex lib \<lparr>lch_l = Num (l * 0.6), lch_c = Num c, lch_h = Num h\<rparr>,
          d3_lchHex lib \<lparr>lch_l = Num (l * 0.4), lch_c = Num c, lch_h = Num h\<rparr>])"

definition getTones :: "'c d3 \<Rightarrow> string \<Rightarrow> string list" where
  "getTones lib hex =
     (let color = d3_lch lib hex;
          l = orz (lch_l color); c = orz (lch_c color); h = orz (lch_h color)
      in [d3_lchHex lib \<lparr>lch_l = Num l, lch_c = Num (c * 0.7), lch_h = Num h\<rparr>,
          d3_lchHex lib \<lparr>lch_l = Num l, lch_c = Num (c * 0.4), lch_h = Num h\<rparr>,
          d3_lchHex lib \<lparr>lch_l = Num l, lch_c = Num (c * 0.1), lch_h = Num h\<rparr>])"

definition getComplementary :: "'c d3 \<Rightarrow> string \<Rightarrow> string" where
  "getComplementary lib hex =
     (let color = d3_lch lib hex;
          h = orz (lch_h color)
      in d3_lchHex lib \<lparr>lch_l = lch_l color, lch_c = lch_c color, lch_h = Num (js_rem (h + 180) 360)\<rparr>)"

text \<open>
  \<open>adjustColor\<close>: the three adjusted components, then the conversion back to hex.  The
  parameters \<open>brightness\<close>, \<open>saturation\<close> and \<open>warmth\<close> are slider values, hence numbers.
\<close>

definition adjustLch :: "lch \<Rightarrow> real \<Rightarrow> real \<Rightarrow> real \<Rightarrow> lch" where
  "adjustLch color brightness saturation warmth =
     (let newL = Math_max 0 (Math_min 100 (js_add (lch_l color) brightness));
          newC = Math_max 0 (js_mul (lch_c color) saturation);
          newH = js_rem (orz (lch_h color) + warmth + 360) 360
      in \<lparr>lch_l = newL, lch_c = newC, lch_h = Num newH\<rparr>)"

definition adjustColor :: "'c d3 \<Rightarrow> string \<Rightarrow> real \<Rightarrow> real \<Rightarrow> real \<Rightarrow> string" where
  "adjustColor lib hex brightness saturation warmth =
     d3_lchHex lib (adjustLch (d3_lch lib hex) brightness saturation warmth)"

text \<open>
  \<open>checkContrast\<close>.  \<open>Math.pow(x, 2.4)\<close> is only reached with \<open>x > 0\<close>, where it is the
  real power \<open>x powr 2.4\<close>.
\<close>

definition getLuminance :: "rgbcolor \<Rightarrow> real" where
  "getLuminance c =
     (let a = map (\<lambda>v0. let v = v0 / 255
                          in if v \<le> 0.03928 then v / 12.92 else ((v + 0.055) / 1.055) powr 2.4)
                  [rgb_r c, rgb_g c, rgb_b c]
      in a ! 0 * 0.2126 + a ! 1 * 0.7152 + a ! 2 * 0.0722)"

record Contrast =
  ratio :: string
  aa :: bool
  aaa :: bool
  aaLarge :: bool

definition checkContrast :: "'c d3 \<Rightarrow> string \<Rightarrow> string \<Rightarrow> Contrast" where
  "checkContrast lib foreground background =
     (let f = d3_rgb lib foreground;
          b = d3_rgb lib background;
          l1 = getLuminance f;
          l2 = getLuminance b;
          rat = (max l1 l2 + 0.05) / (min l1 l2 + 0.05)
      in \<lparr>ratio = toFixed2 rat, aa = (rat \<ge> 4.5), aaa = (rat \<ge> 7), aaLarge = (rat \<ge> 3)\<rparr>)"

section \<open>Shareable palette link (App: updateUrl and the restoring effect)\<close>

text \<open>\<open>c.replace('#', '')\<close>: the first \<open>#\<close> of the string is removed.\<close>

fun removeHash :: "string \<Rightarrow> string" where
  "removeHash [] = []"
| "removeHash (ch # cs) = (if ch = CHR ''#'' then cs else ch # removeHash cs)"

text \<open>\<open>xs.join(',')\<close>.\<close>

fun join_comma :: "string list \<Rightarrow> string" where
  "join_comma [] = []"
| "join_comma [x] = x"
| "join_comma (x # y # ys) = x @ '','' @ join_comma (y # ys)"

text \<open>
  \<open>updateUrl\<close> writes the query \<open>?colors=\<close> followed by this string into the address; the
  effect reads the parameter back with \<open>URLSearchParams.get\<close>, which returns \<open>null\<close> (here
  \<open>None\<close>) when it is absent and leaves hex digits and commas as they are.
\<close>

definition updateUrl :: "string list \<Rightarrow> string" where
  "updateUrl colors = join_comma (map removeHash colors)"

text \<open>
  The restoring effect: the palette handed to \<open>setPalette\<close>, or \<open>None\<close> when the state is
  left as it is (no parameter, an empty one, or a list that has not five entries).
\<close>

definition restorePalette :: "'c d3 \<Rightarrow> string option \<Rightarrow> string list option" where
  "restorePalette lib param =
     (case param of
        None \<Rightarrow> None
      | Some colors \<Rightarrow>
          if colors = [] then None
          else (let colorList = map (\<lambda>c. normalizeHex lib (''#'' @ c)) (split_comma colors)
                in if length colorList = 5 then Some colorList else None))"

section \<open>The specification's formulas\<close>

text \<open>
  The formulas of the specification, written from its words, against which the service
  functions are compared.
\<close>

text \<open>WCAG linearisation of a channel normalised to the unit interval.\<close>

definition linearize :: "real \<Rightarrow> real" where
  "linearize v = (if v \<le> 0.03928 then v / 12.92 else ((v + 0.055) / 1.055) powr 2.4)"

definition relativeLuminance :: "rgbcolor \<Rightarrow> real" where
  "relativeLuminance c =
     0.2126 * linearize (rgb_r c / 255) + 0.7152 * linearize (rgb_g c / 255)
       + 0.0722 * linearize (rgb_b c / 255)"

definition contrastRatio :: "rgbcolor \<Rightarrow> rgbcolor \<Rightarrow> real" where
  "contrastRatio f b =
     (max (relativeLuminance f) (relativeLuminance b) + 0.05)
       / (min (relativeLuminance f) (relativeLuminance b) + 0.05)"

text \<open>A colour whose channels lie in the range of a byte.\<close>

definition validRgb :: "rgbcolor \<Rightarrow> bool" where
  "validRgb c = (0 \<le> rgb_r c \<and> rgb_r c \<le> 255 \<and> 0 \<le> rgb_g c \<and> rgb_g c \<le> 255
                  \<and> 0 \<le> rgb_b c \<and> rgb_b c \<le> 255)"

definition white :: rgbcolor where
  "white = \<lparr>rgb_r = 255, rgb_g = 255, rgb_b = 255\<rparr>"

definition black :: rgbcolor where
  "black = \<lparr>rgb_r = 0, rgb_g = 0, rgb_b = 0\<rparr>"

definition clamp :: "real \<Rightarrow> real \<Rightarrow> real \<Rightarrow> real" where
  "clamp x lo hi = max lo (min hi x)"

text \<open>The representative of \<open>x\<close> modulo 360 in the interval from 0 up to 360.\<close>

definition wrap360 :: "real \<Rightarrow> real" where
  "wrap360 x = x - 360 * of_int \<lfloor>x / 360\<rfloor>"

text \<open>An LCH colour with defined components.\<close>

definition lchColor :: "real \<Rightarrow> real \<Rightarrow> real \<Rightarrow> lch" where
  "lchColor L C H = \<lparr>lch_l = Num L, lch_c = Num C, lch_h = Num H\<rparr>"

definition shades :: "real \<Rightarrow> real \<Rightarrow> real \<Rightarrow> lch list" where
  "shades L C H = [lchColor (L * 0.8) C H, lchColor (L * 0.6) C H, lchColor (L * 0.4) C H]"

definition tones :: "real \<Rightarrow> real \<Rightarrow> real \<Rightarrow> lch list" where
  "tones L C H = [lchColor L (C * 0.7) H, lchColor L (C * 0.4) H, lchColor L (C * 0.1) H]"

text \<open>
  The lightness, chroma and hue of a library reading as the harmony functions take them:
  an undefined component counts as 0.
\<close>

definition lchReading :: "lch \<Rightarrow> real \<times> real \<times> real" where
  "lchReading x = (orz (lch_l x), orz (lch_c x), orz (lch_h x))"

text \<open>
  A library reading of a colour string is in range when each component is undefined or
  lies in the range the specification gives it.
\<close>

definition lchInRange :: "lch \<Rightarrow> bool" where
  "lchInRange x =
     ((case lch_l x of NaN \<Rightarrow> True | Num L \<Rightarrow> 0 \<le> L \<and> L \<le> 100)
      \<and> (case lch_c x of NaN \<Rightarrow> True | Num C \<Rightarrow> 0 \<le> C)
      \<and> (case lch_h x of NaN \<Rightarrow> True | Num H \<Rightarrow> 0 \<le> H \<and> H < 360))"

subsection \<open>A small instance of the library\<close>

text \<open>
  An instance of the library interface on which hypotheses about the library can be
  checked: it reads the six-digit \<open>#rrggbb\<close> syntax only, formats a colour as lower-case
  \<open>#rrggbb\<close>, and knows the LCH reading of pure red (rounded to two decimals).
\<close>

definition hexVal :: "char \<Rightarrow> nat option" where
  "hexVal ch =
     (let code = (of_char ch :: nat)
      in if 48 \<le> code \<and> code \<le> 57 then Some (code - 48)
         else if 97 \<le> code \<and> code \<le> 102 then Some (code - 87)
         else if 65 \<le> code \<and> code \<le> 70 then Some (code - 55)
         else None)"

definition hexByte :: "char \<Rightarrow> char \<Rightarrow> nat option" where
  "hexByte hi lo =
     (case (hexVal hi, hexVal lo) of (Some a, Some b) \<Rightarrow> Some (16 * a + b) | _ \<Rightarrow> None)"

fun parseHex6 :: "string \<Rightarrow> (nat \<times> nat \<times> nat) option" where
  "parseHex6 [h, r1, r2, g1, g2, b1, b2] =
     (if h = CHR ''#'' then
        (case (hexByte r1 r2, hexByte g1 g2, hexByte b1 b2) of
           (Some rr, Some gg, Some bb) \<Rightarrow> Some (rr, gg, bb)
         | _ \<Rightarrow> None)
      else None)"
| "parseHex6 _ = None"

definition redLch :: lch where
  "redLch = \<lparr>lch_l = Num 54.29, lch_c = Num 106.84, lch_h = Num 40.85\<rparr>"

definition sampleLib :: "(nat \<times> nat \<times> nat) d3" where
  "sampleLib =
     \<lparr>d3_color = parseHex6,
      d3_formatHex = (\<lambda>(rr, gg, bb). rgbToHex rr gg bb),
      d3_formatRgb = (\<lambda>(rr, gg, bb). ''rgb('' @ toStringRadix 10 rr @ '', '' @ toStringRadix 10 gg
                                          @ '', '' @ toStringRadix 10 bb @ '')''),
      d3_formatHsl = (\<lambda>_. ''hsl(0, 0%, 0%)''),
      d3_lchOf = (\<lambda>_. redLch),
      d3_lch = (\<lambda>_. redLch),
      d3_lchHex = (\<lambda>x. if x = redLch then ''#ff0000'' else ''#000000''),
      d3_rgb = (\<lambda>s. case parseHex6 s of
                       Some (rr, gg, bb) \<Rightarrow> \<lparr>rgb_r = real rr, rgb_g = real gg, rgb_b = real bb\<rparr>
                     | None \<Rightarrow> black)\<rparr>"

subsection \<open>The complementary step and a table of library values\<close>

text \<open>The LCH colour that \<open>getComplementary\<close> hands to the library for a reading.\<close>

definition complementLch :: "lch \<Rightarrow> lch" where
  "complementLch color =
     \<lparr>lch_l = lch_l color, lch_c = lch_c color, lch_h = Num (js_rem (orz (lch_h color) + 180) 360)\<rparr>"

text \<open>
  The library keeps the hue of an LCH colour when the hex form of the colour, read back
  as LCH, has the same hue modulo 360.
\<close>

definition hueKept :: "'c d3 \<Rightarrow> lch \<Rightarrow> bool" where
  "hueKept lib y = (wrap360 (orz (lch_h (d3_lch lib (d3_lchHex lib y)))) = wrap360 (orz (lch_h y)))"

definition undefinedLch :: lch where
  "undefinedLch = \<lparr>lch_l = NaN, lch_c = NaN, lch_h = NaN\<rparr>"

text \<open>
  Values of d3-color (its D50 Lab conversion, channels clipped to 0..255 and rounded by
  \<open>formatHex\<close>) at the colours of two examples, to two decimals: the LCH readings of
  five colour strings and the hex forms of five LCH colours.  The complement of yellow
  lies outside the sRGB gamut; the complement of \<open>#26bf9f\<close> lies inside.  The table is
  not filled elsewhere.
\<close>

definition d3Table :: "(nat \<times> nat \<times> nat) d3" where
  "d3Table =
     sampleLib
       \<lparr>d3_lch := (\<lambda>s.
            if s = ''#ffff00'' then lchColor 97.61 94.71 99.57
            else if s = ''#a5f4ff'' then lchColor 91.36 26.74 210.14
            else if s = ''#ffd6ce'' then lchColor 89.02 16.88 34.64
            else if s = ''#26bf9f'' then lchColor 69.39 45.81 174.09
            else if s = ''#f287b4'' then lchColor 69.39 45.78 354.09
            else undefinedLch),
        d3_lchHex := (\<lambda>y.
            if y = lchColor 97.61 94.71 99.57 then ''#ffff00''
            else if y = lchColor 97.61 94.71 279.57 then ''#a5f4ff''
            else if y = lchColor 91.36 26.74 30.14 then ''#ffd6ce''
            else if y = lchColor 69.39 45.81 354.09 then ''#f287b4''
            else if y = lchColor 69.39 45.78 174.09 then ''#26bf9f''
            else ''#000000'')\<rparr>"


section \<open>Properties of the quantizer\<close>

subsection \<open>Rounding, keys and their decoding\<close>

lemma Math_round_div_floor:
  assumes "0 < b"
  shows "int (Math_round_div a b) = \<lfloor>real a / real b + 1 / 2\<rfloor>"
proof -
  have "real a / real b + 1 / 2 = real (2 * a + b) / real (2 * b)"
    using assms by (simp add: field_simps)
  then have "\<lfloor>real a / real b + 1 / 2\<rfloor> = \<lfloor>real (2 * a + b) / real (2 * b)\<rfloor>"
    by simp
  also have "\<dots> = int ((2 * a + b) div (2 * b))"
    by (simp only: floor_divide_of_nat_eq)
  finally show ?thesis by (simp add: Math_round_div_def)
qed

lemma digitVal_digitChar: "d < 10 \<Longrightarrow> digitVal (digitChar d) = Some d"
proof -
  assume "d < 10"
  then consider "d = 0" | "d = 1" | "d = 2" | "d = 3" | "d = 4" | "d = 5" | "d = 6" | "d = 7" | "d = 8" | "d = 9"
    by (auto simp: less_Suc_eq numeral_eq_Suc)
  then show ?thesis
    by cases (simp_all add: digitVal_def digitChar_def)
qed

lemma digitVal_comma: "digitVal CHR '','' = None"
  by (simp add: digitVal_def)

lemma NumberAcc_append:
  "NumberAcc acc (xs @ ys) = (case NumberAcc acc xs of None \<Rightarrow> None | Some v \<Rightarrow> NumberAcc v ys)"
  by (induction xs arbitrary: acc) (auto split: option.splits)

lemma NumberAcc_toString10: "NumberAcc acc (toStringRadix 10 n) = Some (acc * 10 ^ length (toStringRadix 10 n) + n)"
proof (induction "10::nat" n arbitrary: acc rule: toStringRadix.induct)
  case (1 n)
  show ?case
  proof (cases "n < 10")
    case True
    then show ?thesis
      by (subst (1 2) toStringRadix.simps) (simp add: digitVal_digitChar)
  next
    case False
    have md: "n mod 10 < 10" by simp
    from False have IH: "\<And>acc. NumberAcc acc (toStringRadix 10 (n div 10)) =
        Some (acc * 10 ^ length (toStringRadix 10 (n div 10)) + n div 10)"
      using 1 by simp
    have unf: "toStringRadix 10 n = toStringRadix 10 (n div 10) @ [digitChar (n mod 10)]"
      using False by (subst toStringRadix.simps) simp
    show ?thesis
      by (simp add: unf NumberAcc_append IH digitVal_digitChar [OF md] algebra_simps)
  qed
qed

lemma Number_toString10: "Number (toStringRadix 10 n) = Some n"
  by (simp add: Number_def NumberAcc_toString10)

lemma toString10_no_comma: "CHR '','' \<notin> set (toStringRadix 10 n)"
proof
  assume "CHR '','' \<in> set (toStringRadix 10 n)"
  then obtain us vs where "toStringRadix 10 n = us @ CHR '','' # vs"
    by (auto simp: in_set_conv_decomp)
  then have "NumberAcc 0 (toStringRadix 10 n) = None"
    by (simp add: NumberAcc_append digitVal_comma split: option.splits)
  then show False by (simp add: NumberAcc_toString10)
qed

lemma split_comma_no_comma: "CHR '','' \<notin> set s \<Longrightarrow> split_comma s = [s]"
  by (induction s) auto

lemma split_comma_append:
  "CHR '','' \<notin> set s \<Longrightarrow> split_comma (s @ CHR '','' # t) = s # split_comma t"
  by (induction s) auto

lemma split_comma_keyOf:
  "split_comma (keyOf rr gg bb) = [toStringRadix 10 rr, toStringRadix 10 gg, toStringRadix 10 bb]"
  by (simp add: keyOf_def split_comma_append split_comma_no_comma toString10_no_comma)

lemma hexOfEntry_keyOf: "hexOfEntry (keyOf rr gg bb, n) = Some (rgbToHex rr gg bb)"
  by (simp add: hexOfEntry_def split_comma_keyOf Number_toString10)

lemma mapM_Some:
  "(\<And>x. x \<in> set xs \<Longrightarrow> f x = Some (g x)) \<Longrightarrow> mapM f xs = Some (map g xs)"
  by (induction xs) auto


subsection \<open>The bucket table counts occurrences in first-seen order\<close>

lemma firstSeen_snoc:
  "firstSeen (ks @ [k]) = (if k \<in> set ks then firstSeen ks else firstSeen ks @ [k])"
  by (simp add: firstSeen_def)

lemma set_firstSeen [simp]: "set (firstSeen ks) = set ks"
  by (simp add: firstSeen_def)

lemma distinct_firstSeen [simp]: "distinct (firstSeen ks)"
  by (simp add: firstSeen_def)

lemma bump_map_notin:
  "k \<notin> set ks \<Longrightarrow> bump k (map (\<lambda>x. (x, f x)) ks) = map (\<lambda>x. (x, f x)) ks @ [(k, 1)]"
  by (induction ks) auto

lemma bump_map_in:
  "k \<in> set ks \<Longrightarrow> distinct ks \<Longrightarrow>
   bump k (map (\<lambda>x. (x, f x)) ks) = map (\<lambda>x. (x, if x = k then f x + 1 else f x)) ks"
  by (induction ks) auto

lemma count_list_snoc: "count_list (ks @ [k]) x = (if x = k then count_list ks x + 1 else count_list ks x)"
  by (induction ks) auto

lemma count_list_notin: "k \<notin> set ks \<Longrightarrow> count_list ks k = 0"
  by (induction ks) auto


lemma bump_tally: "bump k (tally ks) = tally (ks @ [k])"
proof (cases "k \<in> set ks")
  case True
  then show ?thesis
    by (simp add: tally_def firstSeen_snoc bump_map_in count_list_snoc)
next
  case False
  have "map (\<lambda>x. (x, count_list ks x)) (firstSeen ks) = map (\<lambda>x. (x, count_list (ks @ [k]) x)) (firstSeen ks)"
    using False by (auto simp: count_list_snoc)
  with False show ?thesis
    by (simp add: tally_def firstSeen_snoc bump_map_notin count_list_snoc count_list_notin)
qed

lemma foldl_bump_tally:
  "foldl (\<lambda>buckets p. bump (key p) buckets) (tally ks) ps = tally (ks @ map key ps)"
  by (induction ps arbitrary: ks) (simp_all add: bump_tally)

lemma bucketsOf_tally: "bucketsOf pixels = tally (map bucketKey pixels)"
  using foldl_bump_tally [of bucketKey "[]" pixels]
  by (simp add: bucketsOf_def tally_def firstSeen_def)


lemma firstIndex_snoc_in: "x \<in> set ks \<Longrightarrow> firstIndex (ks @ [k]) x = firstIndex ks x"
  by (simp add: firstIndex_def) 

lemma firstIndex_lt: "x \<in> set ks \<Longrightarrow> firstIndex ks x < length ks"
  unfolding firstIndex_def by (induction ks) auto

lemma firstIndex_snoc_notin: "k \<notin> set ks \<Longrightarrow> firstIndex (ks @ [k]) k = length ks"
  unfolding firstIndex_def by (induction ks) auto

lemma firstSeen_nth_mem: "i < length (firstSeen ks) \<Longrightarrow> firstSeen ks ! i \<in> set ks"
  using nth_mem [of i "firstSeen ks"] by simp

lemma firstSeen_order:
  "i < j \<Longrightarrow> j < length (firstSeen ks) \<Longrightarrow>
   firstIndex ks (firstSeen ks ! i) < firstIndex ks (firstSeen ks ! j)"
proof (induction ks arbitrary: i j rule: rev_induct)
  case Nil
  then show ?case by (simp add: firstSeen_def)
next
  case (snoc k ks)
  show ?case
  proof (cases "k \<in> set ks")
    case True
    then have eq: "firstSeen (ks @ [k]) = firstSeen ks" by (simp add: firstSeen_snoc)
    from snoc.prems have j: "j < length (firstSeen ks)" and i: "i < length (firstSeen ks)"
      by (simp_all add: eq)
    have "firstIndex ks (firstSeen ks ! i) < firstIndex ks (firstSeen ks ! j)"
      using snoc.IH [OF snoc.prems(1) j] .
    then show ?thesis
      by (simp add: eq firstIndex_snoc_in firstSeen_nth_mem i j)
  next
    case False
    then have eq: "firstSeen (ks @ [k]) = firstSeen ks @ [k]" by (simp add: firstSeen_snoc)
    show ?thesis
    proof (cases "j < length (firstSeen ks)")
      case True
      with snoc.prems have i: "i < length (firstSeen ks)" by simp
      have "firstIndex ks (firstSeen ks ! i) < firstIndex ks (firstSeen ks ! j)"
        using snoc.IH [OF snoc.prems(1) True] .
      then show ?thesis
        by (simp add: eq nth_append firstIndex_snoc_in firstSeen_nth_mem i True)
    next
      case nlt: False
      with snoc.prems have j: "j = length (firstSeen ks)"
        by (simp add: eq)
      with snoc.prems have i: "i < length (firstSeen ks)" by simp
      have "firstIndex ks (firstSeen ks ! i) < length ks"
        by (simp add: firstIndex_lt firstSeen_nth_mem i)
      then show ?thesis
        by (simp add: eq j nth_append i firstIndex_snoc_in firstSeen_nth_mem firstIndex_snoc_notin [OF False])
    qed
  qed
qed


lemma before_decomp: "before xs a b \<longleftrightarrow> (\<exists>us vs ws. xs = us @ a # vs @ b # ws)"
proof
  assume "before xs a b"
  then obtain i j where ij: "i < j" "j < length xs" and a: "xs ! i = a" and b: "xs ! j = b"
    by (auto simp: before_def)
  let ?zs = "drop (Suc i) xs"
  have 1: "xs = take i xs @ a # ?zs"
    using ij a id_take_nth_drop [of i xs] by simp
  have j': "j - Suc i < length ?zs" using ij by simp
  have "?zs ! (j - Suc i) = b" using ij b by simp
  then have 2: "?zs = take (j - Suc i) ?zs @ b # drop (Suc (j - Suc i)) ?zs"
    using id_take_nth_drop [OF j'] by simp
  have "xs = take i xs @ a # take (j - Suc i) ?zs @ b # drop (Suc (j - Suc i)) ?zs"
    using 1 2 by metis
  then show "\<exists>us vs ws. xs = us @ a # vs @ b # ws" by blast
next
  assume "\<exists>us vs ws. xs = us @ a # vs @ b # ws"
  then obtain us vs ws where xs: "xs = us @ a # vs @ b # ws" by blast
  have "length us < length us + Suc (length vs)" by simp
  moreover have "length us + Suc (length vs) < length xs" by (simp add: xs)
  moreover have "xs ! length us = a" by (simp add: xs)
  moreover have "xs ! (length us + Suc (length vs)) = b"
    by (simp add: xs nth_append)
  ultimately show "before xs a b" unfolding before_def by blast
qed

lemma before_filter: "before xs a b \<Longrightarrow> P a \<Longrightarrow> P b \<Longrightarrow> before (filter P xs) a b"
  unfolding before_decomp by fastforce

lemma before_antisym: "distinct xs \<Longrightarrow> before xs a b \<Longrightarrow> \<not> before xs b a"
  unfolding before_def
  by (metis less_imp_not_less less_trans nth_eq_iff_index_eq)

lemma before_total: "a \<in> set xs \<Longrightarrow> b \<in> set xs \<Longrightarrow> a \<noteq> b \<Longrightarrow> before xs a b \<or> before xs b a"
  unfolding before_def in_set_conv_nth
  by (metis nat_neq_iff)

lemma sort_key_tie_order:
  fixes f :: "'a \<Rightarrow> int"
  assumes d: "distinct xs"
    and bf: "before (sort_key f xs) a b"
    and tie: "f a = f b"
  shows "before xs a b"
proof (rule ccontr)
  assume nb: "\<not> before xs a b"
  let ?ys = "sort_key f xs"
  let ?P = "\<lambda>y. f y = f a"
  have dys: "distinct ?ys" using d by simp
  have st: "filter ?P ?ys = filter ?P xs" by (rule sort_key_stable)
  have before_mem: "\<And>zs x y. before zs x y \<Longrightarrow> x \<in> set zs \<and> y \<in> set zs"
    unfolding before_def by (metis less_trans nth_mem)
  from before_mem [OF bf] have mem: "a \<in> set xs" "b \<in> set xs"
    by simp_all
  from bf dys have "a \<noteq> b"
    by (auto simp: before_def nth_eq_iff_index_eq)
  with mem nb have "before xs b a" using before_total by metis
  then have "before (filter ?P xs) b a"
    by (rule before_filter) (simp_all add: tie)
  moreover have "before (filter ?P ?ys) a b"
    using bf by (rule before_filter) (simp_all add: tie)
  then have "before (filter ?P xs) a b"
    by (simp only: st)
  moreover have "distinct (filter ?P xs)" using d by simp
  ultimately show False using before_antisym by metis
qed



subsection \<open>The ranked list\<close>

lemma map_fst_tally: "map fst (tally ks) = firstSeen ks"
  by (simp add: tally_def comp_def)

lemma rankedOf_set: "set (rankedOf pixels) = set (tally (map bucketKey pixels))"
  by (simp add: rankedOf_def bucketsOf_tally)

lemma rankedOf_length: "length (rankedOf pixels) = card (bucketKey ` set pixels)"
proof -
  have "length (rankedOf pixels) = length (firstSeen (map bucketKey pixels))"
    by (simp add: rankedOf_def bucketsOf_tally tally_def)
  also have "\<dots> = card (set (firstSeen (map bucketKey pixels)))"
    by (simp only: distinct_card [OF distinct_firstSeen])
  finally show ?thesis by simp
qed

lemma distinct_tally: "distinct (tally ks)"
  by (simp add: tally_def distinct_map inj_on_def)

lemma rankedOf_distinct_keys: "distinct (map fst (rankedOf pixels))"
proof -
  let ?t = "tally (map bucketKey pixels)"
  have "distinct (map fst ?t)" by (simp add: map_fst_tally)
  then have "inj_on fst (set ?t)" by (simp add: distinct_map)
  moreover have "distinct (rankedOf pixels)"
    by (simp add: rankedOf_def bucketsOf_tally distinct_tally)
  ultimately show ?thesis
    by (simp add: distinct_map rankedOf_set)
qed

lemma rankedOf_keys: "fst ` set (rankedOf pixels) = bucketKey ` set pixels"
proof -
  have "fst ` set (tally (map bucketKey pixels)) = set (map fst (tally (map bucketKey pixels)))"
    by simp
  also have "\<dots> = bucketKey ` set pixels"
    by (simp only: map_fst_tally set_firstSeen set_map)
  finally show ?thesis by (simp only: rankedOf_set)
qed

lemma rankedOf_entry:
  "e \<in> set (rankedOf pixels) \<Longrightarrow>
   snd e = count_list (map bucketKey pixels) (fst e) \<and> (\<exists>p \<in> set pixels. fst e = bucketKey p)"
  by (auto simp: rankedOf_set tally_def)

lemma rankedOf_descending:
  assumes "i \<le> j" "j < length (rankedOf pixels)"
  shows "snd (rankedOf pixels ! j) \<le> snd (rankedOf pixels ! i)"
proof -
  let ?f = "\<lambda>e :: string \<times> nat. - int (snd e)"
  have "sorted (map ?f (rankedOf pixels))"
    by (simp add: rankedOf_def)
  then have "map ?f (rankedOf pixels) ! i \<le> map ?f (rankedOf pixels) ! j"
    using assms by (simp add: sorted_iff_nth_mono del: nth_map)
  then show ?thesis using assms by simp
qed

lemma hexOfEntry_bucket:
  "e \<in> set (rankedOf pixels) \<Longrightarrow> \<exists>p \<in> set pixels. fst e = bucketKey p \<and> hexOfEntry e = Some (pixelHex p)"
proof -
  assume "e \<in> set (rankedOf pixels)"
  then obtain p where p: "p \<in> set pixels" "fst e = bucketKey p"
    using rankedOf_entry by blast
  then have "e = (keyOf (quantChannel (px_r p)) (quantChannel (px_g p)) (quantChannel (px_b p)), snd e)"
    by (simp add: bucketKey_def prod_eq_iff)
  then have "hexOfEntry e = Some (pixelHex p)"
    using hexOfEntry_keyOf pixelHex_def by metis
  with p show ?thesis by blast
qed

lemma mapM_length: "mapM f xs = Some ys \<Longrightarrow> length ys = length xs"
  by (induction xs arbitrary: ys) (auto split: option.splits)

lemma mapM_nth: "mapM f xs = Some ys \<Longrightarrow> i < length xs \<Longrightarrow> f (xs ! i) = Some (ys ! i)"
  by (induction xs arbitrary: ys i) (auto split: option.splits simp: nth_Cons')

lemma mapM_total: "(\<And>x. x \<in> set xs \<Longrightarrow> \<exists>y. f x = Some y) \<Longrightarrow> \<exists>ys. mapM f xs = Some ys"
  by (induction xs) (auto split: option.splits)

lemma slice0_length:
  "length (slice0 xs e) = (if 0 \<le> e then min (nat e) (length xs) else length xs - nat (- e))"
  by (auto simp: slice0_def Let_def min_def max_def)

lemma slice0_nth: "i < length (slice0 xs e) \<Longrightarrow> slice0 xs e ! i = xs ! i"
  by (simp add: slice0_def Let_def)

lemma slice0_subset: "set (slice0 xs e) \<subseteq> set xs"
  by (simp add: slice0_def Let_def set_take_subset)

lemma getDominantColors_total: "\<exists>cols. getDominantColors pixels count = Some cols"
  unfolding getDominantColors_def
proof (rule mapM_total)
  fix e assume "e \<in> set (slice0 (rankedOf pixels) count)"
  then have "e \<in> set (rankedOf pixels)" by (rule subsetD [OF slice0_subset])
  from hexOfEntry_bucket [OF this] show "\<exists>y. hexOfEntry e = Some y" by auto
qed


lemma tally_order:
  assumes "before (tally ks) a b"
  shows "firstIndex ks (fst a) < firstIndex ks (fst b)"
proof -
  from assms obtain i j where ij: "i < j" "j < length (tally ks)"
    and a: "tally ks ! i = a" and b: "tally ks ! j = b"
    by (auto simp: before_def)
  have len: "length (tally ks) = length (firstSeen ks)" by (simp add: tally_def)
  have "fst a = firstSeen ks ! i" using ij a len by (auto simp: tally_def)
  moreover have "fst b = firstSeen ks ! j" using ij b len by (auto simp: tally_def)
  moreover have "firstIndex ks (firstSeen ks ! i) < firstIndex ks (firstSeen ks ! j)"
    using ij len by (simp add: firstSeen_order)
  ultimately show ?thesis by simp
qed


section \<open>Claims about the quantizer\<close>

text \<open>
  Claim C1 (the quantizer clamps every bucket channel to 0..255 before hex encoding, so
  every returned string is a valid \<open>#rrggbb\<close> colour).  The code has no clamp: a channel
  of 250 rounds to 256, which \<open>toString(16)\<close> renders as the three digits \<open>100\<close>.  For
  the single pixel (250, 10, 10) and for the scenario of dark grey and red pixels the
  result contains the seven-digit string \<open>#1000000\<close>, which is not of the form
  \<open>#rrggbb\<close>.
\<close>

theorem getDominantColors_overflow_byte:
  "getDominantColors [\<lparr>px_r = 250, px_g = 10, px_b = 10\<rparr>] 1 = Some [''#1000000'']
   \<and> getDominantColors
         (replicate 3 \<lparr>px_r = 20, px_g = 20, px_b = 20\<rparr>
           @ replicate 2 \<lparr>px_r = 250, px_g = 10, px_b = 10\<rparr>) 2
       = Some [''#202020'', ''#1000000'']
   \<and> quantChannel 250 = 256
   \<and> \<not> isHexColor ''#1000000''"
proof -
  have "getDominantColors [\<lparr>px_r = 250, px_g = 10, px_b = 10\<rparr>] 1 = Some [''#1000000'']"
    by code_simp
  moreover have "getDominantColors
         (replicate 3 \<lparr>px_r = 20, px_g = 20, px_b = 20\<rparr>
           @ replicate 2 \<lparr>px_r = 250, px_g = 10, px_b = 10\<rparr>) 2
       = Some [''#202020'', ''#1000000'']"
    by code_simp
  moreover have "quantChannel 250 = 256"
    by (simp add: quantChannel_def Math_round_div_def factor_def)
  moreover have "\<not> isHexColor ''#1000000''"
    by (simp add: isHexColor_def)
  ultimately show ?thesis by blast
qed

text \<open>
  Claim C2 (ranked prefix), as the code has it.  For every pixel sequence and every
  integer count the call returns a list \<open>cols\<close>; its entries are, position by position,
  the hex encodings of the leading entries of the ranked bucket list.  The ranked list
  holds every distinct bucket key of the pixels exactly once, each with its number of
  occurrences, in descending order of that number.  For \<open>count \<ge> 0\<close> the result has
  length \<open>min count distinct\<close> and so never exceeds \<open>count\<close>; an empty pixel sequence and
  \<open>count = 0\<close> give the empty palette.  For a negative count, \<open>slice(0, count)\<close> drops the
  last \<open>- count\<close> ranked buckets, so the length is \<open>distinct - (- count)\<close>, cut off at 0.
\<close>

theorem getDominantColors_ranked_prefix:
  "\<exists>cols. getDominantColors pixels count = Some cols
     \<and> length cols = (if 0 \<le> count then min (nat count) (card (bucketKey ` set pixels))
                       else card (bucketKey ` set pixels) - nat (- count))
     \<and> (0 \<le> count \<longrightarrow> int (length cols) \<le> count)
     \<and> (\<forall>i < length cols. \<exists>p \<in> set pixels.
            fst (rankedOf pixels ! i) = bucketKey p \<and> cols ! i = pixelHex p)
     \<and> distinct (map fst (rankedOf pixels))
     \<and> fst ` set (rankedOf pixels) = bucketKey ` set pixels
     \<and> (\<forall>e \<in> set (rankedOf pixels). snd e = count_list (map bucketKey pixels) (fst e))
     \<and> (\<forall>i j. i \<le> j \<and> j < length (rankedOf pixels) \<longrightarrow>
            snd (rankedOf pixels ! j) \<le> snd (rankedOf pixels ! i))
     \<and> (pixels = [] \<longrightarrow> cols = [])
     \<and> (count = 0 \<longrightarrow> cols = [])"
proof -
  obtain cols where cols: "getDominantColors pixels count = Some cols"
    using getDominantColors_total by blast
  let ?sl = "slice0 (rankedOf pixels) count"
  have m: "mapM hexOfEntry ?sl = Some cols"
    using cols by (simp add: getDominantColors_def)
  have len: "length cols = length ?sl" using mapM_length [OF m] .
  have L: "length cols = (if 0 \<le> count then min (nat count) (card (bucketKey ` set pixels))
                       else card (bucketKey ` set pixels) - nat (- count))"
    by (simp only: len slice0_length rankedOf_length)
  have B: "0 \<le> count \<longrightarrow> int (length cols) \<le> count"
    using L by auto
  have N: "\<forall>i < length cols. \<exists>p \<in> set pixels.
            fst (rankedOf pixels ! i) = bucketKey p \<and> cols ! i = pixelHex p"
  proof (intro allI impI)
    fix i assume i: "i < length cols"
    then have i': "i < length ?sl" by (simp add: len)
    then have eq: "?sl ! i = rankedOf pixels ! i" by (rule slice0_nth)
    have "?sl ! i \<in> set ?sl" using i' by (rule nth_mem)
    then have "?sl ! i \<in> set (rankedOf pixels)" by (rule subsetD [OF slice0_subset])
    then have "rankedOf pixels ! i \<in> set (rankedOf pixels)" by (simp only: eq)
    from hexOfEntry_bucket [OF this] obtain p where p: "p \<in> set pixels" "fst (rankedOf pixels ! i) = bucketKey p"
      "hexOfEntry (rankedOf pixels ! i) = Some (pixelHex p)"
      by auto
    have "hexOfEntry (rankedOf pixels ! i) = Some (cols ! i)"
      using mapM_nth [OF m i'] eq by simp
    with p have "cols ! i = pixelHex p" by simp
    with p show "\<exists>p \<in> set pixels. fst (rankedOf pixels ! i) = bucketKey p \<and> cols ! i = pixelHex p"
      by blast
  qed
  have C: "\<forall>e \<in> set (rankedOf pixels). snd e = count_list (map bucketKey pixels) (fst e)"
    using rankedOf_entry by blast
  have S: "\<forall>i j. i \<le> j \<and> j < length (rankedOf pixels) \<longrightarrow>
            snd (rankedOf pixels ! j) \<le> snd (rankedOf pixels ! i)"
    using rankedOf_descending by blast
  have E: "pixels = [] \<longrightarrow> cols = []"
  proof
    assume "pixels = []"
    then have "card (bucketKey ` set pixels) = 0" by simp
    with L show "cols = []" by (simp split: if_splits)
  qed
  have Z: "count = 0 \<longrightarrow> cols = []"
  proof
    assume "count = 0"
    with L show "cols = []" by simp
  qed
  show ?thesis
    by (intro exI [of _ cols] conjI cols L B N rankedOf_distinct_keys rankedOf_keys C S E Z)
qed


text \<open>
  The ranked-prefix theorem at three pixels in two buckets and \<open>count = 1\<close>: the bucket
  with two pixels is returned.
\<close>

theorem getDominantColors_ranked_prefix_witness:
  "(0::int) \<le> 1
   \<and> getDominantColors
        [\<lparr>px_r = 20, px_g = 20, px_b = 20\<rparr>, \<lparr>px_r = 100, px_g = 100, px_b = 100\<rparr>,
         \<lparr>px_r = 20, px_g = 20, px_b = 20\<rparr>] 1 = Some [''#202020'']
   \<and> rankedOf
        [\<lparr>px_r = 20, px_g = 20, px_b = 20\<rparr>, \<lparr>px_r = 100, px_g = 100, px_b = 100\<rparr>,
         \<lparr>px_r = 20, px_g = 20, px_b = 20\<rparr>] = [(''32,32,32'', 2), (''96,96,96'', 1)]"
proof -
  have "getDominantColors
        [\<lparr>px_r = 20, px_g = 20, px_b = 20\<rparr>, \<lparr>px_r = 100, px_g = 100, px_b = 100\<rparr>,
         \<lparr>px_r = 20, px_g = 20, px_b = 20\<rparr>] 1 = Some [''#202020'']"
    by code_simp
  moreover have "rankedOf
        [\<lparr>px_r = 20, px_g = 20, px_b = 20\<rparr>, \<lparr>px_r = 100, px_g = 100, px_b = 100\<rparr>,
         \<lparr>px_r = 20, px_g = 20, px_b = 20\<rparr>] = [(''32,32,32'', 2), (''96,96,96'', 1)]"
    by code_simp
  ultimately show ?thesis
    using getDominantColors_ranked_prefix
      [of "[\<lparr>px_r = 20, px_g = 20, px_b = 20\<rparr>, \<lparr>px_r = 100, px_g = 100, px_b = 100\<rparr>,
            \<lparr>px_r = 20, px_g = 20, px_b = 20\<rparr>]" 1]
    by simp
qed

text \<open>
  Claim C2 as stated fails for a negative count: with two buckets and \<open>count = -1\<close> the
  call returns one colour, not the empty palette.
\<close>

theorem getDominantColors_negative_count_counterexample:
  "getDominantColors
     [\<lparr>px_r = 20, px_g = 20, px_b = 20\<rparr>, \<lparr>px_r = 100, px_g = 100, px_b = 100\<rparr>] (- 1)
   = Some [''#202020'']
   \<and> getDominantColors
     [\<lparr>px_r = 20, px_g = 20, px_b = 20\<rparr>, \<lparr>px_r = 100, px_g = 100, px_b = 100\<rparr>] (- 1)
   \<noteq> Some []"
proof -
  have "getDominantColors
     [\<lparr>px_r = 20, px_g = 20, px_b = 20\<rparr>, \<lparr>px_r = 100, px_g = 100, px_b = 100\<rparr>] (- 1)
   = Some [''#202020'']"
    by code_simp
  then show ?thesis by simp
qed

text \<open>
  Claim C10 (determinism and tie order).  The quantizer is a function of the pixel
  sequence and the count alone, so two runs on the same inputs agree.  When the buckets
  at output positions \<open>i < j\<close> have the same number of pixels, the key of the bucket at
  \<open>i\<close> occurs first in the pixel sequence earlier than the key of the bucket at \<open>j\<close>:
  insertion order of the table, kept by the stable sort.
\<close>

theorem getDominantColors_tie_order:
  assumes run: "getDominantColors pixels count = Some cols"
    and ij: "i < j" "j < length cols"
    and tie: "snd (rankedOf pixels ! i) = snd (rankedOf pixels ! j)"
  shows "hexOfEntry (rankedOf pixels ! i) = Some (cols ! i)
       \<and> hexOfEntry (rankedOf pixels ! j) = Some (cols ! j)
       \<and> firstIndex (map bucketKey pixels) (fst (rankedOf pixels ! i))
           < firstIndex (map bucketKey pixels) (fst (rankedOf pixels ! j))"
proof -
  let ?sl = "slice0 (rankedOf pixels) count"
  let ?f = "\<lambda>e :: string \<times> nat. - int (snd e)"
  have m: "mapM hexOfEntry ?sl = Some cols"
    using run by (simp add: getDominantColors_def)
  have len: "length cols = length ?sl" using mapM_length [OF m] .
  have j': "j < length ?sl" and i': "i < length ?sl" using ij len by simp_all
  have "length ?sl \<le> length (rankedOf pixels)"
    by (simp add: slice0_def Let_def)
  with j' have jr: "j < length (rankedOf pixels)" by simp
  have hi: "hexOfEntry (rankedOf pixels ! i) = Some (cols ! i)"
    using mapM_nth [OF m i'] slice0_nth [OF i'] by simp
  have hj: "hexOfEntry (rankedOf pixels ! j) = Some (cols ! j)"
    using mapM_nth [OF m j'] slice0_nth [OF j'] by simp
  have "before (rankedOf pixels) (rankedOf pixels ! i) (rankedOf pixels ! j)"
    unfolding before_def using ij(1) jr by blast
  then have bf: "before (sort_key ?f (bucketsOf pixels)) (rankedOf pixels ! i) (rankedOf pixels ! j)"
    by (simp only: rankedOf_def)
  have d: "distinct (bucketsOf pixels)"
    by (simp only: bucketsOf_tally distinct_tally)
  have t: "?f (rankedOf pixels ! i) = ?f (rankedOf pixels ! j)"
    by (simp only: tie)
  have "before (bucketsOf pixels) (rankedOf pixels ! i) (rankedOf pixels ! j)"
    using sort_key_tie_order [where f = ?f, OF d bf t] .
  then have "before (tally (map bucketKey pixels)) (rankedOf pixels ! i) (rankedOf pixels ! j)"
    by (simp only: bucketsOf_tally)
  from tally_order [OF this] hi hj show ?thesis by simp
qed


text \<open>
  The tie-order theorem at five pixels: the buckets of (20,20,20) and (100,100,100) both
  hold two pixels; the first is seen at position 1, the second at position 2.
\<close>

theorem getDominantColors_tie_order_witness:
  "firstIndex (map bucketKey
       [\<lparr>px_r = 200, px_g = 0, px_b = 0\<rparr>, \<lparr>px_r = 20, px_g = 20, px_b = 20\<rparr>,
        \<lparr>px_r = 100, px_g = 100, px_b = 100\<rparr>, \<lparr>px_r = 20, px_g = 20, px_b = 20\<rparr>,
        \<lparr>px_r = 100, px_g = 100, px_b = 100\<rparr>]) ''32,32,32''
   < firstIndex (map bucketKey
       [\<lparr>px_r = 200, px_g = 0, px_b = 0\<rparr>, \<lparr>px_r = 20, px_g = 20, px_b = 20\<rparr>,
        \<lparr>px_r = 100, px_g = 100, px_b = 100\<rparr>, \<lparr>px_r = 20, px_g = 20, px_b = 20\<rparr>,
        \<lparr>px_r = 100, px_g = 100, px_b = 100\<rparr>]) ''96,96,96''"
proof -
  let ?P = "[\<lparr>px_r = 200, px_g = 0, px_b = 0\<rparr>, \<lparr>px_r = 20, px_g = 20, px_b = 20\<rparr>,
        \<lparr>px_r = 100, px_g = 100, px_b = 100\<rparr>, \<lparr>px_r = 20, px_g = 20, px_b = 20\<rparr>,
        \<lparr>px_r = 100, px_g = 100, px_b = 100\<rparr>]"
  have ranked: "rankedOf ?P = [(''32,32,32'', 2), (''96,96,96'', 2), (''192,0,0'', 1)]"
    by code_simp
  have run: "getDominantColors ?P 3 = Some [''#202020'', ''#606060'', ''#c00000'']"
    by code_simp
  have ij: "(0::nat) < 1" "1 < length [''#202020'', ''#606060'', ''#c00000'']"
    by simp_all
  have tie: "snd (rankedOf ?P ! 0) = snd (rankedOf ?P ! 1)"
    by (simp add: ranked)
  from getDominantColors_tie_order [OF run ij tie] show ?thesis
    by (simp add: ranked)
qed
section \<open>Properties of the colour transformations\<close>

lemma orz_Num [simp]: "orz (Num v) = v"
  by (simp add: orz_def)

lemma orz_NaN [simp]: "orz NaN = 0"
  by (simp add: orz_def)

lemma js_rem_nonneg: "0 \<le> x \<Longrightarrow> js_rem x 360 = wrap360 x"
  by (simp add: js_rem_def wrap360_def)

lemma js_rem_cases: "js_rem x 360 = wrap360 x \<or> js_rem x 360 = wrap360 x - 360"
proof (cases "0 \<le> x / 360")
  case True
  then show ?thesis by (simp add: js_rem_def wrap360_def)
next
  case False
  have "\<lceil>x / 360\<rceil> = \<lfloor>x / 360\<rfloor> \<or> \<lceil>x / 360\<rceil> = \<lfloor>x / 360\<rfloor> + 1"
    by linarith
  with False show ?thesis
    unfolding js_rem_def wrap360_def by (auto simp: algebra_simps)
qed

lemma wrap360_range: "0 \<le> wrap360 x \<and> wrap360 x < 360"
proof -
  have "of_int \<lfloor>x / 360\<rfloor> \<le> x / 360" "x / 360 < of_int \<lfloor>x / 360\<rfloor> + 1"
    by linarith+
  then show ?thesis
    unfolding wrap360_def by (simp add: field_simps)
qed

lemma js_rem_unit: "0 \<le> h \<Longrightarrow> h < 360 \<Longrightarrow> js_rem (h + 360) 360 = h"
proof -
  assume h: "0 \<le> h" "h < 360"
  then have "\<lfloor>(h + 360) / 360\<rfloor> = 1"
    by (simp add: floor_eq_iff)
  moreover have "0 \<le> (h + 360) / 360" using h by simp
  ultimately show ?thesis by (simp add: js_rem_def)
qed


lemma wrap360_js_rem: "wrap360 (js_rem x 360) = wrap360 x"
proof -
  obtain k :: int where k: "js_rem x 360 = x - 360 * of_int k"
    unfolding js_rem_def by metis
  have "(x - 360 * of_int k) / 360 = x / 360 - of_int k"
    by (simp add: field_simps)
  then have "\<lfloor>(x - 360 * of_int k) / 360\<rfloor> = \<lfloor>x / 360 - of_int k\<rfloor>"
    by (simp only:)
  also have "\<dots> = \<lfloor>x / 360\<rfloor> - k"
    by (rule floor_diff_of_int)
  finally have "\<lfloor>(x - 360 * of_int k) / 360\<rfloor> = \<lfloor>x / 360\<rfloor> - k" .
  then show ?thesis
    by (simp add: k wrap360_def algebra_simps)
qed

lemma getLuminance_spec: "getLuminance c = relativeLuminance c"
  by (simp add: getLuminance_def relativeLuminance_def linearize_def Let_def)

lemma linearize_nonneg: "0 \<le> v \<Longrightarrow> 0 \<le> linearize v"
  by (simp add: linearize_def)

lemma relativeLuminance_nonneg: "validRgb c \<Longrightarrow> 0 \<le> relativeLuminance c"
  by (simp add: relativeLuminance_def validRgb_def linearize_nonneg)

lemma relativeLuminance_white: "relativeLuminance white = 1"
  by (simp add: relativeLuminance_def white_def linearize_def)

lemma relativeLuminance_black: "relativeLuminance black = 0"
  by (simp add: relativeLuminance_def black_def linearize_def)

lemma contrastRatio_white_black: "contrastRatio white black = 21"
  by (simp add: contrastRatio_def relativeLuminance_white relativeLuminance_black)

lemma contrastRatio_white_white: "contrastRatio white white = 1"
  by (simp add: contrastRatio_def relativeLuminance_white)

lemma toFixed2_21: "toFixed2 21 = ''21.00''"
  by (simp add: toFixed2_def hundredths_def toStringRadix.simps digitChar_def)

lemma toFixed2_1: "toFixed2 1 = ''1.00''"
  by (simp add: toFixed2_def hundredths_def toStringRadix.simps digitChar_def)

lemma toFixed2_nearest:
  assumes "0 \<le> x"
  shows "\<exists>n. toFixed2 x = hundredths n \<and> \<bar>real n / 100 - x\<bar> \<le> 1 / 200"
proof -
  let ?k = "\<lfloor>x * 100 + 1 / 2\<rfloor>"
  have k0: "0 \<le> ?k" using assms by simp
  have "of_int ?k \<le> x * 100 + 1 / 2" "x * 100 + 1 / 2 < of_int ?k + 1"
    by linarith+
  then have "\<bar>of_int ?k / 100 - x\<bar> \<le> 1 / 200"
    by linarith
  moreover have "real (nat ?k) = of_int ?k" using k0 by simp
  ultimately have "\<bar>real (nat ?k) / 100 - x\<bar> \<le> 1 / 200" by simp
  moreover have "toFixed2 x = hundredths (nat ?k)"
    using assms by (simp add: toFixed2_def Let_def)
  ultimately show ?thesis by blast
qed

lemma contrastRatio_ge_1:
  assumes "validRgb f" "validRgb b"
  shows "1 \<le> contrastRatio f b"
proof -
  have "0 \<le> relativeLuminance f" "0 \<le> relativeLuminance b"
    using assms by (simp_all add: relativeLuminance_nonneg)
  then show ?thesis
    unfolding contrastRatio_def by (simp add: max_def min_def)
qed

lemma isHexDigit_comma: "\<not> isHexDigit CHR '',''"
  by (simp add: isHexDigit_def)

lemma isHexColor_body:
  assumes "isHexColor c"
  shows "\<exists>ds. c = CHR ''#'' # ds \<and> removeHash c = ds \<and> ds \<noteq> [] \<and> CHR '','' \<notin> set ds"
proof -
  from assms obtain ds where c: "c = CHR ''#'' # ds" and len: "length ds = 6"
    and hex: "list_all isHexDigit ds"
    by (auto simp: isHexColor_def split: list.splits)
  from len have "ds \<noteq> []" by auto
  moreover from hex have "CHR '','' \<notin> set ds"
    using isHexDigit_comma by (auto simp: list_all_iff)
  ultimately show ?thesis using c by simp
qed

lemma join_comma_nonempty: "xs \<noteq> [] \<Longrightarrow> [] \<notin> set xs \<Longrightarrow> join_comma xs \<noteq> []"
  by (induction xs rule: join_comma.induct) auto

lemma split_join_comma:
  "xs \<noteq> [] \<Longrightarrow> (\<And>x. x \<in> set xs \<Longrightarrow> CHR '','' \<notin> set x) \<Longrightarrow> split_comma (join_comma xs) = xs"
proof (induction xs rule: join_comma.induct)
  case 1
  then show ?case by simp
next
  case (2 x)
  then show ?case by (simp add: split_comma_no_comma)
next
  case (3 x y ys)
  have "split_comma (join_comma (y # ys)) = y # ys"
    using 3 by simp
  moreover have "CHR '','' \<notin> set x" using 3 by simp
  ultimately show ?case by (simp add: split_comma_append)
qed

text \<open>
  The hue arithmetic of \<open>getComplementary\<close>: adding 180 degrees twice, each time reduced
  by \<open>% 360\<close>, gives the hue back.
\<close>

lemma complement_hue_twice:
  assumes "0 \<le> h" "h < 360"
  shows "js_rem (js_rem (h + 180) 360 + 180) 360 = h"
proof (cases "h < 180")
  case True
  with assms have "\<lfloor>(h + 180) / 360\<rfloor> = 0" by (simp add: floor_eq_iff)
  with assms have 1: "js_rem (h + 180) 360 = h + 180" by (simp add: js_rem_def)
  have "js_rem (h + 360) 360 = h" using assms by (rule js_rem_unit)
  with 1 show ?thesis by (simp add: algebra_simps)
next
  case False
  with assms have "\<lfloor>(h + 180) / 360\<rfloor> = 1" by (simp add: floor_eq_iff)
  with assms have 1: "js_rem (h + 180) 360 = h - 180" by (simp add: js_rem_def)
  from False assms have "\<lfloor>h / 360\<rfloor> = 0" by (simp add: floor_eq_iff)
  with assms have "js_rem h 360 = h" by (simp add: js_rem_def)
  with 1 show ?thesis by simp
qed

text \<open>Readings of the sample library.\<close>

lemma sampleLib_red: "d3_lch sampleLib ''#ff0000'' = redLch"
  by (simp add: sampleLib_def)

lemma sampleLib_white: "d3_rgb sampleLib ''#ffffff'' = white"
  by (simp add: sampleLib_def white_def hexByte_def hexVal_def)

lemma sampleLib_black: "d3_rgb sampleLib ''#000000'' = black"
  by (simp add: sampleLib_def black_def hexByte_def hexVal_def)

text \<open>The complementary step on the LCH side, and hues modulo 360.\<close>

lemma getComplementary_lch: "getComplementary lib hex = d3_lchHex lib (complementLch (d3_lch lib hex))"
  by (simp add: getComplementary_def complementLch_def Let_def)

lemma wrap360_shift: "wrap360 (x + 360 * of_int k) = wrap360 x"
proof -
  have "(x + 360 * of_int k) / 360 = x / 360 + of_int k"
    by (simp add: field_simps)
  then have "\<lfloor>(x + 360 * of_int k) / 360\<rfloor> = \<lfloor>x / 360 + of_int k\<rfloor>"
    by (simp only:)
  also have "\<dots> = \<lfloor>x / 360\<rfloor> + k"
    by simp
  finally have "\<lfloor>(x + 360 * of_int k) / 360\<rfloor> = \<lfloor>x / 360\<rfloor> + k" .
  then show ?thesis
    by (simp add: wrap360_def algebra_simps)
qed

lemma wrap360_add_cong:
  assumes "wrap360 a = wrap360 b"
  shows "wrap360 (a + t) = wrap360 (b + t)"
proof -
  let ?k = "\<lfloor>a / 360\<rfloor> - \<lfloor>b / 360\<rfloor>"
  have "a = b + 360 * of_int ?k"
    using assms by (simp add: wrap360_def algebra_simps)
  then have "a + t = (b + t) + 360 * of_int ?k" by simp
  then have "wrap360 (a + t) = wrap360 ((b + t) + 360 * of_int ?k)" by (simp only:)
  also have "\<dots> = wrap360 (b + t)" by (rule wrap360_shift)
  finally show ?thesis .
qed

lemma wrap360_full_turn: "wrap360 (x + 180 + 180) = wrap360 x"
  using wrap360_shift [of x 1] by (simp add: algebra_simps)

lemma complementLch_twice_hue:
  assumes "lchInRange x"
  shows "lch_h (complementLch (complementLch x)) = Num (orz (lch_h x))"
proof -
  have r: "0 \<le> orz (lch_h x) \<and> orz (lch_h x) < 360"
    using assms by (cases "lch_h x") (simp_all add: lchInRange_def)
  then have "js_rem (js_rem (orz (lch_h x) + 180) 360 + 180) 360 = orz (lch_h x)"
    by (simp add: complement_hue_twice)
  then show ?thesis by (simp add: complementLch_def)
qed

lemma hueKept_complement:
  assumes "hueKept lib (complementLch x)"
  shows "wrap360 (orz (lch_h (d3_lch lib (d3_lchHex lib (complementLch x))))) = wrap360 (orz (lch_h x) + 180)"
  using assms by (simp add: hueKept_def complementLch_def wrap360_js_rem)

text \<open>Look-ups in the table of library values.\<close>

lemma d3Table_lch:
  "d3_lch d3Table ''#ffff00'' = lchColor 97.61 94.71 99.57"
  "d3_lch d3Table ''#a5f4ff'' = lchColor 91.36 26.74 210.14"
  "d3_lch d3Table ''#ffd6ce'' = lchColor 89.02 16.88 34.64"
  "d3_lch d3Table ''#26bf9f'' = lchColor 69.39 45.81 174.09"
  "d3_lch d3Table ''#f287b4'' = lchColor 69.39 45.78 354.09"
  by (simp_all add: d3Table_def)

lemma d3Table_lchHex:
  "d3_lchHex d3Table (lchColor 97.61 94.71 99.57) = ''#ffff00''"
  "d3_lchHex d3Table (lchColor 97.61 94.71 279.57) = ''#a5f4ff''"
  "d3_lchHex d3Table (lchColor 91.36 26.74 30.14) = ''#ffd6ce''"
  "d3_lchHex d3Table (lchColor 69.39 45.81 354.09) = ''#f287b4''"
  "d3_lchHex d3Table (lchColor 69.39 45.78 174.09) = ''#26bf9f''"
  by (simp_all add: d3Table_def lchColor_def)

lemma js_rem_values:
  "js_rem (99.57 + 180) 360 = 279.57"
  "js_rem (210.14 + 180) 360 = 30.14"
  "js_rem (174.09 + 180) 360 = 354.09"
  "js_rem (354.09 + 180) 360 = 174.09"
  by (simp_all add: js_rem_def floor_eq_iff)

lemma complementLch_values:
  "complementLch (lchColor 97.61 94.71 99.57) = lchColor 97.61 94.71 279.57"
  "complementLch (lchColor 91.36 26.74 210.14) = lchColor 91.36 26.74 30.14"
  "complementLch (lchColor 69.39 45.81 174.09) = lchColor 69.39 45.81 354.09"
  "complementLch (lchColor 69.39 45.78 354.09) = lchColor 69.39 45.78 174.09"
  using js_rem_values by (simp_all add: complementLch_def lchColor_def)

lemma wrap360_values: "wrap360 34.64 = 34.64" "wrap360 99.57 = 99.57" "wrap360 174.09 = 174.09"
  "wrap360 354.09 = 354.09"
  by (simp_all add: wrap360_def floor_eq_iff)

lemma d3Table_complements:
  "getComplementary d3Table ''#ffff00'' = ''#a5f4ff''"
  "getComplementary d3Table ''#a5f4ff'' = ''#ffd6ce''"
  "getComplementary d3Table ''#26bf9f'' = ''#f287b4''"
  "getComplementary d3Table ''#f287b4'' = ''#26bf9f''"
  by (simp_all only: getComplementary_lch d3Table_lch complementLch_values d3Table_lchHex)

section \<open>Claims about the colour transformations and the palette link\<close>

text \<open>
  Claim C3 (WCAG contrast).  For colours whose channels lie between 0 and 255, the
  result of \<open>checkContrast\<close> is built from the specification's formulas: the ratio field
  is the contrast ratio \<open>(max(L1, L2) + 0.05) / (min(L1, L2) + 0.05)\<close> of the two relative
  luminances written with two decimals (the nearest number of hundredths), and the flags
  \<open>aa\<close>, \<open>aaa\<close>, \<open>aaLarge\<close> compare the unrounded ratio with 4.5, 7 and 3.  White on
  black gives \<open>21.00\<close>, white on white \<open>1.00\<close>.
\<close>

theorem checkContrast_wcag:
  assumes "validRgb (d3_rgb lib fg)" and "validRgb (d3_rgb lib bg)"
  shows "ratio (checkContrast lib fg bg) = toFixed2 (contrastRatio (d3_rgb lib fg) (d3_rgb lib bg))
       \<and> (\<exists>n. ratio (checkContrast lib fg bg) = hundredths n
              \<and> \<bar>real n / 100 - contrastRatio (d3_rgb lib fg) (d3_rgb lib bg)\<bar> \<le> 1 / 200)
       \<and> aa (checkContrast lib fg bg) = (4.5 \<le> contrastRatio (d3_rgb lib fg) (d3_rgb lib bg))
       \<and> aaa (checkContrast lib fg bg) = (7 \<le> contrastRatio (d3_rgb lib fg) (d3_rgb lib bg))
       \<and> aaLarge (checkContrast lib fg bg) = (3 \<le> contrastRatio (d3_rgb lib fg) (d3_rgb lib bg))
       \<and> (d3_rgb lib fg = white \<and> d3_rgb lib bg = black
            \<longrightarrow> ratio (checkContrast lib fg bg) = ''21.00'')
       \<and> (d3_rgb lib fg = white \<and> d3_rgb lib bg = white
            \<longrightarrow> ratio (checkContrast lib fg bg) = ''1.00'')"
proof -
  let ?R = "contrastRatio (d3_rgb lib fg) (d3_rgb lib bg)"
  have r: "ratio (checkContrast lib fg bg) = toFixed2 ?R"
    by (simp add: checkContrast_def Let_def getLuminance_spec contrastRatio_def)
  have "0 \<le> ?R" using contrastRatio_ge_1 [OF assms] by simp
  from toFixed2_nearest [OF this]
  have n: "\<exists>n. ratio (checkContrast lib fg bg) = hundredths n \<and> \<bar>real n / 100 - ?R\<bar> \<le> 1 / 200"
    by (simp only: r)
  have a: "aa (checkContrast lib fg bg) = (4.5 \<le> ?R)"
    by (simp add: checkContrast_def Let_def getLuminance_spec contrastRatio_def)
  have a3: "aaa (checkContrast lib fg bg) = (7 \<le> ?R)"
    by (simp add: checkContrast_def Let_def getLuminance_spec contrastRatio_def)
  have al: "aaLarge (checkContrast lib fg bg) = (3 \<le> ?R)"
    by (simp add: checkContrast_def Let_def getLuminance_spec contrastRatio_def)
  have wb: "d3_rgb lib fg = white \<and> d3_rgb lib bg = black
            \<longrightarrow> ratio (checkContrast lib fg bg) = ''21.00''"
    by (simp add: r contrastRatio_white_black toFixed2_21)
  have ww: "d3_rgb lib fg = white \<and> d3_rgb lib bg = white
            \<longrightarrow> ratio (checkContrast lib fg bg) = ''1.00''"
    by (simp add: r contrastRatio_white_white toFixed2_1)
  show ?thesis
    by (intro conjI r n a a3 al wb ww)
qed

text \<open>The contrast theorem at white on black, read by the sample library.\<close>

theorem checkContrast_wcag_witness:
  "validRgb (d3_rgb sampleLib ''#ffffff'') \<and> validRgb (d3_rgb sampleLib ''#000000'')
   \<and> ratio (checkContrast sampleLib ''#ffffff'' ''#000000'') = ''21.00''
   \<and> aa (checkContrast sampleLib ''#ffffff'' ''#000000'')"
proof -
  have w: "validRgb (d3_rgb sampleLib ''#ffffff'')"
    by (simp add: sampleLib_white validRgb_def white_def)
  have b: "validRgb (d3_rgb sampleLib ''#000000'')"
    by (simp add: sampleLib_black validRgb_def black_def)
  from checkContrast_wcag [OF w b] w b show ?thesis
    by (simp add: sampleLib_white sampleLib_black contrastRatio_white_black toFixed2_21)
qed

text \<open>
  Claim C4 (adjustment in LCH).  For a colour with lightness \<open>L\<close>, chroma \<open>C\<close> and hue
  \<open>H\<close> (an undefined hue counting as 0), \<open>adjustColor\<close> hands the library the LCH colour
  with lightness \<open>clamp (L + brightness) 0 100\<close>, chroma \<open>max 0 (C * saturation)\<close> and a
  hue \<open>H'\<close> that is \<open>H + warmth + 360\<close> modulo 360, and returns its hex form.  \<open>H'\<close> is the
  representative between 0 and 360 whenever \<open>H + warmth + 360\<close> is not negative, which
  covers the whole range of the warmth slider; below that the remainder operator keeps
  the sign and \<open>H'\<close> is that representative less 360, the same angle.
\<close>

theorem adjustColor_spec:
  assumes "lch_l (d3_lch lib hex) = Num L"
    and "lch_c (d3_lch lib hex) = Num C"
    and "orz (lch_h (d3_lch lib hex)) = H"
  shows "\<exists>H'. adjustColor lib hex b s w
                = d3_lchHex lib (lchColor (clamp (L + b) 0 100) (max 0 (C * s)) H')
              \<and> wrap360 H' = wrap360 (H + w + 360)
              \<and> (H' = wrap360 (H + w + 360) \<or> H' = wrap360 (H + w + 360) - 360)
              \<and> (0 \<le> H + w + 360 \<longrightarrow> H' = wrap360 (H + w + 360) \<and> 0 \<le> H' \<and> H' < 360)"
proof -
  let ?H' = "js_rem (H + w + 360) 360"
  have "adjustLch (d3_lch lib hex) b s w = lchColor (clamp (L + b) 0 100) (max 0 (C * s)) ?H'"
    using assms
    by (simp add: adjustLch_def lchColor_def clamp_def Math_max_def Math_min_def js_add_def js_mul_def)
  then have "adjustColor lib hex b s w
              = d3_lchHex lib (lchColor (clamp (L + b) 0 100) (max 0 (C * s)) ?H')"
    by (simp add: adjustColor_def)
  moreover have "wrap360 ?H' = wrap360 (H + w + 360)"
    by (rule wrap360_js_rem)
  moreover have "?H' = wrap360 (H + w + 360) \<or> ?H' = wrap360 (H + w + 360) - 360"
    by (rule js_rem_cases)
  moreover have "0 \<le> H + w + 360 \<longrightarrow> ?H' = wrap360 (H + w + 360) \<and> 0 \<le> ?H' \<and> ?H' < 360"
    using wrap360_range [of "H + w + 360"] by (simp add: js_rem_nonneg)
  ultimately show ?thesis by blast
qed

text \<open>The adjustment theorem at the sample library's red, with warmth 30.\<close>

theorem adjustColor_spec_witness:
  "lch_l (d3_lch sampleLib ''#ff0000'') = Num 54.29
   \<and> lch_c (d3_lch sampleLib ''#ff0000'') = Num 106.84
   \<and> orz (lch_h (d3_lch sampleLib ''#ff0000'')) = 40.85
   \<and> (0::real) \<le> 40.85 + 30 + 360
   \<and> adjustColor sampleLib ''#ff0000'' 10 0.5 30
       = d3_lchHex sampleLib (lchColor (clamp (54.29 + 10) 0 100) (max 0 (106.84 * 0.5))
                                        (wrap360 (40.85 + 30 + 360)))"
proof -
  have l: "lch_l (d3_lch sampleLib ''#ff0000'') = Num 54.29"
    and c: "lch_c (d3_lch sampleLib ''#ff0000'') = Num 106.84"
    and h: "orz (lch_h (d3_lch sampleLib ''#ff0000'')) = 40.85"
    by (simp_all add: sampleLib_red redLch_def)
  from adjustColor_spec [OF l c h, of 10 "0.5" 30] l c h show ?thesis
    by auto
qed

text \<open>
  Claim C5 (shared link round trip).  A palette of five \<open>#rrggbb\<close> colours, each of which
  the library parses and reads back unchanged from its own hex format, is serialised to
  the comma-joined hex digits of its entries (each without its \<open>#\<close>, in palette order),
  and restoring that string yields five colours
  that the library parses to the same colours, in the same order.  When the strings are
  already in the library's spelling (\<open>normalizeHex\<close> leaves them unchanged), the restored
  palette is the original list itself.
\<close>

theorem palette_link_round_trip:
  assumes len: "length palette = 5"
    and ok: "\<forall>c \<in> set palette. isHexColor c
               \<and> (\<exists>v. d3_color lib c = Some v \<and> d3_color lib (d3_formatHex lib v) = Some v)"
  shows "\<exists>cols. updateUrl palette = join_comma (map tl palette)
           \<and> restorePalette lib (Some (updateUrl palette)) = Some cols
           \<and> length cols = 5
           \<and> map (d3_color lib) cols = map (d3_color lib) palette
           \<and> ((\<forall>c \<in> set palette. normalizeHex lib c = c) \<longrightarrow> cols = palette)"
proof -
  let ?bodies = "map removeHash palette"
  let ?cols = "map (normalizeHex lib) palette"
  have ne: "?bodies \<noteq> []" using len by auto
  have body: "\<And>c. c \<in> set palette \<Longrightarrow> c = CHR ''#'' # removeHash c \<and> removeHash c \<noteq> []
                 \<and> CHR '','' \<notin> set (removeHash c)"
    using ok isHexColor_body by fastforce
  have nocomma: "\<And>x. x \<in> set ?bodies \<Longrightarrow> CHR '','' \<notin> set x"
    using body by auto
  have noempty: "[] \<notin> set ?bodies"
  proof
    assume "[] \<in> set ?bodies"
    then obtain c where "c \<in> set palette" "removeHash c = []" by auto
    with body show False by blast
  qed
  have sp: "split_comma (updateUrl palette) = ?bodies"
    unfolding updateUrl_def using ne nocomma by (rule split_join_comma)
  have nonempty: "updateUrl palette \<noteq> []"
    unfolding updateUrl_def using ne noempty by (rule join_comma_nonempty)
  have "map (\<lambda>c. normalizeHex lib (CHR ''#'' # c)) ?bodies = ?cols"
    unfolding map_map
  proof (rule map_cong [OF refl])
    fix c assume c: "c \<in> set palette"
    then have "CHR ''#'' # removeHash c = c" using body by simp
    then show "((\<lambda>c. normalizeHex lib (CHR ''#'' # c)) \<circ> removeHash) c = normalizeHex lib c"
      by simp
  qed
  then have restored: "restorePalette lib (Some (updateUrl palette)) = Some ?cols"
    by (simp add: restorePalette_def nonempty sp len Let_def del: map_map)
  have same: "map (d3_color lib) ?cols = map (d3_color lib) palette"
    unfolding map_map
  proof (rule map_cong [OF refl])
    fix c assume "c \<in> set palette"
    with ok obtain v where "d3_color lib c = Some v" "d3_color lib (d3_formatHex lib v) = Some v"
      by blast
    then show "(d3_color lib \<circ> normalizeHex lib) c = d3_color lib c"
      by (simp add: normalizeHex_def)
  qed
  have exact: "(\<forall>c \<in> set palette. normalizeHex lib c = c) \<longrightarrow> ?cols = palette"
    by (simp add: map_idI)
  have "map removeHash palette = map tl palette"
  proof (rule map_cong [OF refl])
    fix c assume "c \<in> set palette"
    from body [OF this] have "c = CHR ''#'' # removeHash c" by simp
    then show "removeHash c = tl c" by (metis list.sel(3))
  qed
  then have bare: "updateUrl palette = join_comma (map tl palette)"
    by (simp only: updateUrl_def)
  have "length ?cols = 5" using len by simp
  with bare restored same exact show ?thesis by blast
qed

text \<open>
  The round trip at a palette with one upper-case entry: the same colours come back,
  that entry in lower case.
\<close>

theorem palette_link_round_trip_witness:
  "restorePalette sampleLib
     (Some (updateUrl [''#141414'', ''#F27D26'', ''#e4e3e0'', ''#8e9299'', ''#ffffff'']))
   = Some [''#141414'', ''#f27d26'', ''#e4e3e0'', ''#8e9299'', ''#ffffff'']
   \<and> updateUrl [''#141414'', ''#F27D26'', ''#e4e3e0'', ''#8e9299'', ''#ffffff'']
       = ''141414,F27D26,e4e3e0,8e9299,ffffff''
   \<and> d3_color sampleLib ''#f27d26'' = d3_color sampleLib ''#F27D26''"
proof -
  let ?P = "[''#141414'', ''#F27D26'', ''#e4e3e0'', ''#8e9299'', ''#ffffff'']"
  have len: "length ?P = 5" by simp
  have p: "parseHex6 ''#141414'' = Some (20, 20, 20)" "parseHex6 ''#F27D26'' = Some (242, 125, 38)"
    "parseHex6 ''#f27d26'' = Some (242, 125, 38)"
    "parseHex6 ''#e4e3e0'' = Some (228, 227, 224)" "parseHex6 ''#8e9299'' = Some (142, 146, 153)"
    "parseHex6 ''#ffffff'' = Some (255, 255, 255)"
    by code_simp+
  have f: "rgbToHex 20 20 20 = ''#141414''" "rgbToHex 242 125 38 = ''#f27d26''"
    "rgbToHex 228 227 224 = ''#e4e3e0''" "rgbToHex 142 146 153 = ''#8e9299''"
    "rgbToHex 255 255 255 = ''#ffffff''"
    by code_simp+
  have x: "isHexColor ''#141414''" "isHexColor ''#F27D26''" "isHexColor ''#e4e3e0''"
    "isHexColor ''#8e9299''" "isHexColor ''#ffffff''"
    by code_simp+
  have ok: "\<forall>c \<in> set ?P. isHexColor c
               \<and> (\<exists>v. d3_color sampleLib c = Some v
                      \<and> d3_color sampleLib (d3_formatHex sampleLib v) = Some v)"
    using p f x by (simp add: sampleLib_def)
  have n: "map (normalizeHex sampleLib) ?P = [''#141414'', ''#f27d26'', ''#e4e3e0'', ''#8e9299'', ''#ffffff'']"
    using p f by (simp add: normalizeHex_def sampleLib_def)
  have u: "updateUrl ?P = ''141414,F27D26,e4e3e0,8e9299,ffffff''"
    by (simp add: updateUrl_def)
  have r: "restorePalette sampleLib (Some ''141414,F27D26,e4e3e0,8e9299,ffffff'')
           = Some [''#141414'', ''#f27d26'', ''#e4e3e0'', ''#8e9299'', ''#ffffff'']"
    using p f by (simp add: restorePalette_def normalizeHex_def sampleLib_def)
  from palette_link_round_trip [OF len ok] u r p show ?thesis
    by (simp add: sampleLib_def)
qed

text \<open>
  Claim C6 (fallback to black).  When the library cannot parse the string, \<open>normalizeHex\<close>
  returns \<open>#000000\<close> and \<open>getColorFormats\<close> returns the four black forms.  Both functions
  are total: nothing is raised, and no library method is called on the missing colour.
\<close>

theorem parse_failure_black:
  assumes "d3_color lib s = None"
  shows "normalizeHex lib s = ''#000000''
       \<and> getColorFormats lib s
           = \<lparr>cf_hex = ''#000000'', cf_rgb = ''rgb(0,0,0)'', cf_hsl = ''hsl(0,0%,0%)'',
              cf_lch = ''lch(0 0 0)''\<rparr>"
  using assms by (simp add: normalizeHex_def getColorFormats_def)

text \<open>The fallback theorem at a string the sample library does not parse.\<close>

theorem parse_failure_black_witness:
  "d3_color sampleLib ''not a color'' = None
   \<and> normalizeHex sampleLib ''not a color'' = ''#000000''
   \<and> cf_lch (getColorFormats sampleLib ''not a color'') = ''lch(0 0 0)''"
proof -
  have n: "d3_color sampleLib ''not a color'' = None"
    by (simp add: sampleLib_def)
  from parse_failure_black [OF n] n show ?thesis by simp
qed

text \<open>
  Claim C7 (shades and tones).  With \<open>L\<close>, \<open>C\<close>, \<open>H\<close> the lightness, chroma and hue of
  the colour, \<open>getShades\<close> returns exactly three colours, the hex forms of the LCH colours
  with lightness \<open>0.8 L\<close>, \<open>0.6 L\<close>, \<open>0.4 L\<close> and unchanged chroma and hue, and
  \<open>getTones\<close> exactly three with chroma \<open>0.7 C\<close>, \<open>0.4 C\<close>, \<open>0.1 C\<close> and unchanged
  lightness and hue; the lightness, respectively the chroma, decreases along the list.
\<close>

theorem getShades_getTones_spec:
  assumes "lchReading (d3_lch lib hex) = (L, C, H)"
  shows "getShades lib hex = map (d3_lchHex lib) (shades L C H)
       \<and> length (getShades lib hex) = 3
       \<and> getTones lib hex = map (d3_lchHex lib) (tones L C H)
       \<and> length (getTones lib hex) = 3
       \<and> (0 \<le> L \<longrightarrow> L * 0.4 \<le> L * 0.6 \<and> L * 0.6 \<le> L * 0.8 \<and> L * 0.8 \<le> L)
       \<and> (0 \<le> C \<longrightarrow> C * 0.1 \<le> C * 0.4 \<and> C * 0.4 \<le> C * 0.7 \<and> C * 0.7 \<le> C)"
  using assms
  by (simp add: getShades_def getTones_def shades_def tones_def lchColor_def lchReading_def)

text \<open>The shades and tones theorem at the sample library's red.\<close>

theorem getShades_getTones_spec_witness:
  "lchReading (d3_lch sampleLib ''#ff0000'') = (54.29, 106.84, 40.85)
   \<and> (0::real) \<le> 54.29 \<and> (0::real) \<le> 106.84
   \<and> getShades sampleLib ''#ff0000'' = map (d3_lchHex sampleLib) (shades 54.29 106.84 40.85)
   \<and> getTones sampleLib ''#ff0000'' = map (d3_lchHex sampleLib) (tones 54.29 106.84 40.85)"
proof -
  have r: "lchReading (d3_lch sampleLib ''#ff0000'') = (54.29, 106.84, 40.85)"
    by (simp add: sampleLib_red redLch_def lchReading_def)
  from getShades_getTones_spec [OF r] r show ?thesis by simp
qed



text \<open>
  Claim C9 (complementary twice), as the code has it.  \<open>getComplementary\<close> hands the
  library the colour's lightness and chroma with the hue \<open>(H + 180) % 360\<close>, and this
  step taken twice on an LCH colour gives the hue \<open>H\<close> back.  The second call, however,
  starts from the hex form of the first result: the hue read from the double complement
  is the hue of the colour modulo 360 when the library keeps the hue of the two colours
  it is handed, and not in general.
\<close>

theorem getComplementary_twice:
  assumes "lchInRange (d3_lch lib c)"
  shows "getComplementary lib c = d3_lchHex lib (complementLch (d3_lch lib c))
       \<and> lch_l (complementLch (d3_lch lib c)) = lch_l (d3_lch lib c)
       \<and> lch_c (complementLch (d3_lch lib c)) = lch_c (d3_lch lib c)
       \<and> lch_h (complementLch (d3_lch lib c)) = Num (js_rem (orz (lch_h (d3_lch lib c)) + 180) 360)
       \<and> lch_h (complementLch (complementLch (d3_lch lib c))) = Num (orz (lch_h (d3_lch lib c)))
       \<and> (hueKept lib (complementLch (d3_lch lib c))
            \<and> hueKept lib (complementLch (d3_lch lib (getComplementary lib c)))
          \<longrightarrow> wrap360 (orz (lch_h (d3_lch lib (getComplementary lib (getComplementary lib c)))))
                = wrap360 (orz (lch_h (d3_lch lib c))))"
proof -
  let ?x = "d3_lch lib c"
  let ?c1 = "getComplementary lib c"
  let ?x1 = "d3_lch lib ?c1"
  have kept: "wrap360 (orz (lch_h (d3_lch lib (getComplementary lib ?c1)))) = wrap360 (orz (lch_h ?x))"
    if k1: "hueKept lib (complementLch ?x)" and k2: "hueKept lib (complementLch ?x1)"
  proof -
    have h1: "wrap360 (orz (lch_h ?x1)) = wrap360 (orz (lch_h ?x) + 180)"
      using hueKept_complement [OF k1] by (simp only: getComplementary_lch)
    have "wrap360 (orz (lch_h (d3_lch lib (getComplementary lib ?c1)))) = wrap360 (orz (lch_h ?x1) + 180)"
      using hueKept_complement [OF k2] by (simp only: getComplementary_lch)
    also have "\<dots> = wrap360 (orz (lch_h ?x) + 180 + 180)"
      using h1 by (rule wrap360_add_cong)
    also have "\<dots> = wrap360 (orz (lch_h ?x))"
      by (rule wrap360_full_turn)
    finally show ?thesis .
  qed
  show ?thesis
    using kept complementLch_twice_hue [OF assms]
    by (simp add: getComplementary_lch [of lib c] complementLch_def)
qed

text \<open>
  The theorem at \<open>#26bf9f\<close>, whose complement \<open>#f287b4\<close> lies inside the gamut: both
  hues are kept and the double complement is the colour itself.
\<close>

theorem getComplementary_twice_witness:
  "lchInRange (d3_lch d3Table ''#26bf9f'')
   \<and> hueKept d3Table (complementLch (d3_lch d3Table ''#26bf9f''))
   \<and> hueKept d3Table (complementLch (d3_lch d3Table (getComplementary d3Table ''#26bf9f'')))
   \<and> getComplementary d3Table (getComplementary d3Table ''#26bf9f'') = ''#26bf9f''
   \<and> wrap360 (orz (lch_h (d3_lch d3Table (getComplementary d3Table (getComplementary d3Table ''#26bf9f'')))))
       = wrap360 (orz (lch_h (d3_lch d3Table ''#26bf9f'')))"
proof -
  have r: "lchInRange (d3_lch d3Table ''#26bf9f'')"
    by (simp add: d3Table_lch lchColor_def lchInRange_def)
  have k1: "hueKept d3Table (complementLch (d3_lch d3Table ''#26bf9f''))"
    by (simp only: hueKept_def d3Table_lch complementLch_values d3Table_lchHex)
      (simp add: lchColor_def)
  have k2: "hueKept d3Table (complementLch (d3_lch d3Table (getComplementary d3Table ''#26bf9f'')))"
    by (simp only: hueKept_def d3Table_complements d3Table_lch complementLch_values d3Table_lchHex)
      (simp add: lchColor_def)
  have c2: "getComplementary d3Table (getComplementary d3Table ''#26bf9f'') = ''#26bf9f''"
    by (simp only: d3Table_complements)
  from getComplementary_twice [OF r] k1 k2 have
    "wrap360 (orz (lch_h (d3_lch d3Table (getComplementary d3Table (getComplementary d3Table ''#26bf9f'')))))
       = wrap360 (orz (lch_h (d3_lch d3Table ''#26bf9f'')))"
    by blast
  with r k1 k2 c2 show ?thesis by blast
qed

text \<open>
  Claim C9 as stated fails at yellow: its complement lies outside the gamut and is
  clipped to \<open>#a5f4ff\<close>, whose complement is \<open>#ffd6ce\<close> with hue 34.64, not the hue
  99.57 of yellow.
\<close>

theorem getComplementary_twice_counterexample:
  "getComplementary d3Table (getComplementary d3Table ''#ffff00'') = ''#ffd6ce''
   \<and> wrap360 (orz (lch_h (d3_lch d3Table (getComplementary d3Table (getComplementary d3Table ''#ffff00''))))) = 34.64
   \<and> wrap360 (orz (lch_h (d3_lch d3Table ''#ffff00''))) = 99.57
   \<and> wrap360 (orz (lch_h (d3_lch d3Table (getComplementary d3Table (getComplementary d3Table ''#ffff00'')))))
       \<noteq> wrap360 (orz (lch_h (d3_lch d3Table ''#ffff00'')))"
proof -
  have c2: "getComplementary d3Table (getComplementary d3Table ''#ffff00'') = ''#ffd6ce''"
    by (simp only: d3Table_complements)
  have h2: "wrap360 (orz (lch_h (d3_lch d3Table ''#ffd6ce''))) = 34.64"
    by (simp only: d3Table_lch lchColor_def lch.simps orz_Num wrap360_values)
  have h0: "wrap360 (orz (lch_h (d3_lch d3Table ''#ffff00''))) = 99.57"
    by (simp only: d3Table_lch lchColor_def lch.simps orz_Num wrap360_values)
  have "(34.64 :: real) \<noteq> 99.57" by simp
  with c2 h2 h0 show ?thesis by (simp only: c2 h2 h0) simp
qed

end
